theory Spec2Isabelle
  imports Complex_Main
begin

section \<open>Strings\<close>

text \<open>
  A Python \<open>str\<close> is a sequence of code points. It is modelled by a HOL \<open>string\<close> in which
  every \<open>char\<close> stands for one code point below 256 (ASCII and Latin-1), so that
  \<open>\<acute>e\<close> (U+00E9) is the single character \<open>char_of 233\<close>. The character classes below
  are those of Python on that range.
\<close>

definition code :: "char \<Rightarrow> nat" where
  "code c = of_char c"

definition is_ascii_alnum :: "char \<Rightarrow> bool" where
  \<comment> \<open>the regular-expression class \<open>[a-zA-Z0-9]\<close>\<close>
  "is_ascii_alnum c =
     ((97 \<le> code c \<and> code c \<le> 122) \<or> (65 \<le> code c \<and> code c \<le> 90) \<or> (48 \<le> code c \<and> code c \<le> 57))"

definition lower_char :: "char \<Rightarrow> char" where
  \<comment> \<open>\<open>str.lower\<close> on one code point below 256: A-Z, and the Latin-1 capitals except U+00D7\<close>
  "lower_char c =
     (if (65 \<le> code c \<and> code c \<le> 90) \<or> (192 \<le> code c \<and> code c \<le> 222 \<and> code c \<noteq> 215)
      then char_of (code c + 32) else c)"

definition lower :: "string \<Rightarrow> string" where
  "lower s = map lower_char s"

definition isspace :: "char \<Rightarrow> bool" where
  \<comment> \<open>\<open>str.isspace\<close> on one code point below 256\<close>
  "isspace c = (code c \<in> {9, 10, 11, 12, 13, 28, 29, 30, 31, 32, 133, 160})"

definition strip_with :: "(char \<Rightarrow> bool) \<Rightarrow> string \<Rightarrow> string" where
  "strip_with P s = rev (dropWhile P (rev (dropWhile P s)))"

definition strip :: "string \<Rightarrow> string" where
  \<comment> \<open>\<open>s.strip()\<close>\<close>
  "strip s = strip_with isspace s"

definition strip_hyphen :: "string \<Rightarrow> string" where
  \<comment> \<open>\<open>s.strip("-")\<close>\<close>
  "strip_hyphen s = strip_with (\<lambda>c. c = CHR ''-'') s"

definition truthy :: "string option \<Rightarrow> bool" where
  \<comment> \<open>Python truthiness of a value that is a string or \<open>None\<close> (an absent key reads as \<open>None\<close>
      through \<open>dict.get\<close>): \<open>None\<close> and the empty string are false.\<close>
  "truthy v = (case v of None \<Rightarrow> False | Some s \<Rightarrow> s \<noteq> [])"

definition por :: "string option \<Rightarrow> string option \<Rightarrow> string option" where
  \<comment> \<open>\<open>a or b\<close> on such values\<close>
  "por a b = (if truthy a then a else b)"

fun join :: "string \<Rightarrow> string list \<Rightarrow> string" where
  "join sep [] = []"
| "join sep [x] = x"
| "join sep (x # y # ys) = x @ sep @ join sep (y # ys)"

fun starts_with :: "string \<Rightarrow> string \<Rightarrow> bool" where
  "starts_with [] s = True"
| "starts_with (p # ps) [] = False"
| "starts_with (p # ps) (c # cs) = (p = c \<and> starts_with ps cs)"

fun contains :: "string \<Rightarrow> string \<Rightarrow> bool" where
  \<comment> \<open>\<open>sub in s\<close> for strings\<close>
  "contains sub [] = (sub = [])"
| "contains sub (c # cs) = (starts_with sub (c # cs) \<or> contains sub cs)"

definition isdigit_char :: "char \<Rightarrow> bool" where
  \<comment> \<open>the code points below 256 that \<open>str.isdigit\<close> accepts: 0-9 and the superscripts 1, 2, 3\<close>
  "isdigit_char c = ((48 \<le> code c \<and> code c \<le> 57) \<or> code c \<in> {178, 179, 185})"

definition isdigit :: "string \<Rightarrow> bool" where
  \<comment> \<open>\<open>s.isdigit()\<close>: false on the empty string\<close>
  "isdigit s = (s \<noteq> [] \<and> list_all isdigit_char s)"

fun split_on :: "(char \<Rightarrow> bool) \<Rightarrow> string \<Rightarrow> string list" where
  \<comment> \<open>\<open>re.split\<close> on a class of single characters: one more piece than separators\<close>
  "split_on P [] = [[]]"
| "split_on P (c # cs) =
     (if P c then [] # split_on P cs
      else (case split_on P cs of [] \<Rightarrow> [[c]] | w # ws \<Rightarrow> (c # w) # ws))"

fun str_of_nat :: "nat \<Rightarrow> string" where
  "str_of_nat n =
     (if n < 10 then [char_of (48 + n)] else str_of_nat (n div 10) @ [char_of (48 + n mod 10)])"

definition str_of_int :: "int \<Rightarrow> string" where
  \<comment> \<open>\<open>str\<close> of a Python integer\<close>
  "str_of_int i = (if i < 0 then CHR ''-'' # str_of_nat (nat (- i)) else str_of_nat (nat i))"

section \<open>The dataset\<close>

text \<open>
  A place of the dataset is a JSON object; it is modelled as a record holding every key the
  scripts write. An optional string is \<open>None\<close> when the key is absent or \<open>null\<close>
  (\<open>dict.get\<close> reads both as \<open>None\<close>). Numbers are reals. The text Python prints for a float
  is not modelled: the functions that format a coordinate take the formatter \<open>fmt\<close> as an
  argument.
\<close>

datatype error = KeyError string | HTTPError int | ValueError string
  \<comment> \<open>a missing key under a subscript; a failed request with its status; an argument outside
      the domain of a function of \<open>math\<close>\<close>

record place =
  p_id :: string
  p_name :: string
  p_category :: string
  p_lat :: real
  p_lon :: real
  p_tags :: "string list"
  p_address :: "string option"
  p_website :: "string option"
  p_phone :: "string option"
  p_photoUrl :: "string option"
  p_mapsUrl :: string
  p_indoorOutdoor :: string
  p_durationMins :: int
  p_bestTimeOfDay :: string
  p_description :: "string option"
  p_area :: "string option"
  p_aiDescription :: "string option"
  p_embedding :: "real list option"

definition ALLOWED_TAGS :: "string set" where
  \<comment> \<open>the same set in build_places_osm.py and in build_places_zurich_api.py\<close>
  "ALLOWED_TAGS =
     {''cozy'', ''hip'', ''lake'', ''oldtown'', ''quiet'', ''touristy'', ''romantic'', ''cheap'',
      ''view'', ''photo'', ''park'', ''green'', ''narrow'', ''bridge'', ''city'', ''street'',
      ''mexican'', ''italian'', ''sushi'', ''burger'', ''asian'', ''swiss'', ''brunch'',
      ''coffee'', ''cocktails'', ''beer'', ''wine'', ''vegan'', ''historic''}"

definition maps_url :: "(real \<Rightarrow> string) \<Rightarrow> real \<Rightarrow> real \<Rightarrow> string" where
  "maps_url fmt la lo = ''https://maps.google.com/?q='' @ fmt la @ '','' @ fmt lo"

section \<open>build_places_osm.py\<close>

function re_sub_non_alnum :: "string \<Rightarrow> string" where
  \<comment> \<open>\<open>re.sub(r"[^a-zA-Z0-9]+", "-", s)\<close>: every maximal run of characters outside the class
      becomes one hyphen\<close>
  "re_sub_non_alnum [] = []"
| "re_sub_non_alnum (c # cs) =
     (if is_ascii_alnum c then c # re_sub_non_alnum cs
      else CHR ''-'' # re_sub_non_alnum (dropWhile (\<lambda>d. \<not> is_ascii_alnum d) cs))"
  by pat_completeness auto
termination
  by (relation "measure length") (auto simp: less_Suc_eq_le length_dropWhile_le)

definition slugify :: "string \<Rightarrow> string" where
  "slugify text =
     (let slug = strip_hyphen (re_sub_non_alnum (lower (strip text)))
      in if slug = [] then ''place'' else slug)"

definition cafe_bar :: string where
  \<comment> \<open>the name \<open>Caf\<acute>e & Bar!!\<close>, its fourth character being U+00E9\<close>
  "cafe_bar = ''Caf'' @ [char_of (233::nat)] @ '' & Bar!!''"

text \<open>
  An element of the Overpass answer. \<open>None\<close> is an absent key; the \<open>tags\<close> object maps
  strings to strings.
\<close>

record center =
  c_lat :: "real option"
  c_lon :: "real option"

record element =
  e_type :: "string option"
  e_id :: "int option"
  e_lat :: "real option"
  e_lon :: "real option"
  e_center :: "center option"
  e_tags :: "(string \<times> string) list option"

definition CATEGORY_DEFAULTS_osm :: "(string \<times> string \<times> int \<times> string) list" where
  \<comment> \<open>category, then indoorOutdoor, durationMins, bestTimeOfDay\<close>
  "CATEGORY_DEFAULTS_osm =
     [(''restaurant'', ''indoor'', 90, ''night''),
      (''cafe'', ''indoor'', 60, ''morning''),
      (''bar'', ''indoor'', 90, ''night''),
      (''museum'', ''indoor'', 60, ''afternoon''),
      (''market'', ''indoor'', 45, ''morning''),
      (''park'', ''outdoor'', 75, ''afternoon''),
      (''viewpoint'', ''outdoor'', 45, ''sunset''),
      (''walk'', ''outdoor'', 75, ''afternoon'')]"

definition CUISINE_MAP :: "(string \<times> string) list" where
  "CUISINE_MAP =
     [(''mexican'', ''mexican''), (''tex-mex'', ''mexican''), (''latin_american'', ''mexican''),
      (''latin-american'', ''mexican''), (''italian'', ''italian''), (''sushi'', ''sushi''),
      (''japanese'', ''sushi''), (''asian'', ''asian''), (''thai'', ''asian''),
      (''vietnamese'', ''asian''), (''chinese'', ''asian''), (''korean'', ''asian''),
      (''burger'', ''burger''), (''swiss'', ''swiss''), (''vegan'', ''vegan''),
      (''vegetarian'', ''vegan''), (''coffee'', ''coffee''), (''cafe'', ''coffee''),
      (''brunch'', ''brunch'')]"

definition CATEGORY_TAGS :: "(string \<times> string list) list" where
  "CATEGORY_TAGS =
     [(''restaurant'', []), (''cafe'', [''coffee'']), (''bar'', [''beer'', ''cocktails'']),
      (''museum'', [''historic'']), (''market'', [''city'']), (''park'', [''park'', ''green'']),
      (''viewpoint'', [''view'', ''photo'']), (''walk'', [''view'', ''photo'', ''street''])]"

definition build_address_osm :: "(string \<times> string) list \<Rightarrow> string option" where
  "build_address_osm tags =
     (let parts = [map_of tags ''addr:street'', map_of tags ''addr:housenumber'',
                   map_of tags ''addr:postcode'', map_of tags ''addr:city''];
          cleaned = map the (filter truthy parts)
      in case cleaned of
           [] \<Rightarrow> None
         | [a] \<Rightarrow> Some a
         | a # b # rest \<Rightarrow>
             if isdigit b then Some (join '', '' ((a @ '' '' @ b) # rest))
             else Some (join '', '' (a # b # rest)))"

definition extract_cuisine_tags :: "(string \<times> string) list \<Rightarrow> string list" where
  "extract_cuisine_tags tags =
     (case map_of tags ''cuisine'' of
        None \<Rightarrow> []
      | Some cuisine \<Rightarrow>
          if cuisine = [] then []
          else concat (map (\<lambda>v. let v' = strip v in
                                  if v' = [] then []
                                  else (case map_of CUISINE_MAP v' of
                                          None \<Rightarrow> []
                                        | Some mapped_tag \<Rightarrow> if mapped_tag = [] then [] else [mapped_tag]))
                           (split_on (\<lambda>c. c = CHR '';'' \<or> c = CHR '','') (lower cuisine))))"

definition element_center :: "element \<Rightarrow> (real \<times> real) option" where
  "element_center el =
     (case (e_lat el, e_lon el) of
        (Some la, Some lo) \<Rightarrow> Some (la, lo)
      | _ \<Rightarrow> (case e_center el of
                None \<Rightarrow> None
              | Some c \<Rightarrow> (case (c_lat c, c_lon c) of
                             (Some la, Some lo) \<Rightarrow> Some (la, lo)
                           | _ \<Rightarrow> None)))"

definition clamp_tags :: "string list \<Rightarrow> string list" where
  "clamp_tags tags = filter (\<lambda>tag. tag \<in> ALLOWED_TAGS) tags"

definition element_tags :: "element \<Rightarrow> (string \<times> string) list" where
  \<comment> \<open>\<open>element.get("tags", {})\<close>\<close>
  "element_tags el = (case e_tags el of None \<Rightarrow> [] | Some t \<Rightarrow> t)"

definition category_tags :: "string \<Rightarrow> string list" where
  \<comment> \<open>\<open>CATEGORY_TAGS.get(category, [])\<close>\<close>
  "category_tags category = (case map_of CATEGORY_TAGS category of None \<Rightarrow> [] | Some ts \<Rightarrow> ts)"

definition build_place :: "(real \<Rightarrow> string) \<Rightarrow> element \<Rightarrow> string \<Rightarrow> error + place option" where
  \<comment> \<open>\<open>Inr None\<close> is the source's \<open>return None\<close>; the subscripts \<open>element['type']\<close>,
      \<open>element['id']\<close> and \<open>CATEGORY_DEFAULTS[category]\<close> raise on a missing key, in the
      order in which the source evaluates them.\<close>
  "build_place fmt el category =
     (case element_center el of
        None \<Rightarrow> Inr None
      | Some (la, lo) \<Rightarrow>
         (let tags = element_tags el; name = map_of tags ''name'' in
          if \<not> truthy name then Inr None
          else
           (let address = build_address_osm tags;
                cuisine_tags = extract_cuisine_tags tags;
                combined_tags = clamp_tags (category_tags category @ cuisine_tags)
            in (case e_type el of
                  None \<Rightarrow> Inl (KeyError ''type'')
                | Some ty \<Rightarrow>
                   (case e_id el of
                      None \<Rightarrow> Inl (KeyError ''id'')
                    | Some i \<Rightarrow>
                       (case map_of CATEGORY_DEFAULTS_osm category of
                          None \<Rightarrow> Inl (KeyError category)
                        | Some (indoor_outdoor, duration_mins, best_time) \<Rightarrow>
                            Inr (Some \<lparr>
                              p_id = ''osm-'' @ ty @ ''-'' @ str_of_int i @ ''-'' @ slugify (the name),
                              p_name = the name,
                              p_category = category,
                              p_lat = la,
                              p_lon = lo,
                              p_tags = combined_tags,
                              p_address = address,
                              p_website = por (map_of tags ''website'') (map_of tags ''contact:website''),
                              p_phone = por (map_of tags ''phone'') (map_of tags ''contact:phone''),
                              p_photoUrl = None,
                              p_mapsUrl = maps_url fmt la lo,
                              p_indoorOutdoor = indoor_outdoor,
                              p_durationMins = duration_mins,
                              p_bestTimeOfDay = best_time,
                              p_description = map_of tags ''description'',
                              p_area = por (map_of tags ''addr:suburb'') (map_of tags ''addr:neighbourhood''),
                              p_aiDescription = None,
                              p_embedding = None \<rparr>)))))))"

definition osm_category :: "(string \<times> string) list \<Rightarrow> string option" where
  \<comment> \<open>the \<open>if\<close>/\<open>elif\<close> chain at the head of the loop of \<open>build_places\<close>\<close>
  "osm_category tags =
     (if map_of tags ''amenity'' = Some ''restaurant'' then Some ''restaurant''
      else if map_of tags ''amenity'' = Some ''cafe'' then Some ''cafe''
      else if map_of tags ''amenity'' \<in> {Some ''bar'', Some ''pub''} then Some ''bar''
      else if map_of tags ''tourism'' = Some ''museum'' then Some ''museum''
      else if map_of tags ''amenity'' = Some ''marketplace'' then Some ''market''
      else if map_of tags ''leisure'' = Some ''park'' then Some ''park''
      else if map_of tags ''tourism'' = Some ''viewpoint'' then Some ''viewpoint''
      else if map_of tags ''route'' \<in> {Some ''hiking'', Some ''foot'', Some ''walking'', Some ''trail''}
        then Some ''walk''
      else None)"

text \<open>
  The loop of \<open>build_places\<close>. Its state is the list \<open>places\<close>, the set \<open>seen\<close> and the
  dictionary \<open>per_category\<close>, which the source creates with the count 0 for each of the eight
  categories and reads only at a category of \<open>osm_category\<close>; it is a total function here.
\<close>

record build_state =
  st_places :: "place list"
  st_seen :: "string set"
  st_per_category :: "string \<Rightarrow> int"

definition build_places_step ::
  "(real \<Rightarrow> string) \<Rightarrow> int \<Rightarrow> build_state \<Rightarrow> element \<Rightarrow> error + build_state" where
  "build_places_step fmt limit_per_category st el =
     (case osm_category (element_tags el) of
        None \<Rightarrow> Inr st
      | Some category \<Rightarrow>
          if st_per_category st category \<ge> limit_per_category then Inr st
          else (case build_place fmt el category of
                  Inl e \<Rightarrow> Inl e
                | Inr None \<Rightarrow> Inr st
                | Inr (Some place) \<Rightarrow>
                    if p_id place \<in> st_seen st then Inr st
                    else Inr \<lparr> st_places = st_places st @ [place],
                               st_seen = insert (p_id place) (st_seen st),
                               st_per_category = (st_per_category st)
                                 (category := st_per_category st category + 1) \<rparr>))"

fun build_places_loop ::
  "(real \<Rightarrow> string) \<Rightarrow> int \<Rightarrow> build_state \<Rightarrow> element list \<Rightarrow> error + build_state" where
  "build_places_loop fmt limit_per_category st [] = Inr st"
| "build_places_loop fmt limit_per_category st (el # els) =
     (case build_places_step fmt limit_per_category st el of
        Inl e \<Rightarrow> Inl e
      | Inr st' \<Rightarrow> build_places_loop fmt limit_per_category st' els)"

definition initial_state :: build_state where
  \<comment> \<open>the state in which \<open>build_places\<close> enters its loop\<close>
  "initial_state = \<lparr> st_places = [], st_seen = {}, st_per_category = (\<lambda>_. 0) \<rparr>"

definition build_places :: "(real \<Rightarrow> string) \<Rightarrow> element list \<Rightarrow> int \<Rightarrow> error + place list" where
  "build_places fmt elements limit_per_category =
     (case build_places_loop fmt limit_per_category initial_state elements of
        Inl e \<Rightarrow> Inl e
      | Inr st \<Rightarrow> Inr (st_places st))"

section \<open>build_places_zurich_api.py\<close>

text \<open>
  An object of the Zurich Tourism API, read through the keys the script uses. A value that the
  script tests with \<open>isinstance\<close> is a datatype with one constructor for each type it tells
  apart. A nested object that is absent, \<open>null\<close> or empty is \<open>None\<close>: the script treats the
  three alike.
\<close>

datatype text_field = TStr string | TDict "string option" "string option" "string option" | TOther
  \<comment> \<open>a string; an object read at the keys \<open>en\<close>, \<open>de\<close>, \<open>default\<close>; anything else or absent\<close>

datatype image = ImgStr string | ImgDict "string option" | ImgList "image list" | ImgOther
  \<comment> \<open>a string; an object read at the key \<open>url\<close> (\<open>None\<close> unless a string); a list; anything
      else or absent\<close>

record address =
  streetAddress :: "string option"
  postalCode :: "string option"
  addressLocality :: "string option"
  a_url :: "string option"
  a_telephone :: "string option"

datatype address_field = AddressDict address | AddressText string | NoAddress
  \<comment> \<open>an object; a value that is not an object (a string); absent or \<open>null\<close>\<close>

datatype type_field = TypeStr string | TypeList "string list" | TypeOther

record geo =
  latitude :: "real option"
  longitude :: "real option"

record obj =
  o_identifier :: "string option"
  o_id :: "string option"
  o_geoCoordinates :: "geo option"
  o_geo :: "geo option"
  o_name :: text_field
  o_headline :: text_field
  o_title :: "string option"
  o_category :: "string list"  \<comment> \<open>the keys of \<open>obj.get("category") or {}\<close>\<close>
  o_type :: type_field
  o_disambiguatingDescription :: text_field
  o_description :: text_field
  o_textTeaser :: text_field
  o_titleTeaser :: text_field
  o_address :: address_field
  o_url :: "string option"
  o_telephone :: "string option"
  o_image :: image
  o_photo :: image

definition CATEGORY_DEFAULTS_zurich :: "(string \<times> string \<times> int \<times> string) list" where
  "CATEGORY_DEFAULTS_zurich =
     [(''restaurant'', ''indoor'', 90, ''night''),
      (''cafe'', ''indoor'', 60, ''morning''),
      (''bar'', ''indoor'', 90, ''night''),
      (''museum'', ''indoor'', 60, ''afternoon''),
      (''market'', ''indoor'', 60, ''morning''),
      (''park'', ''outdoor'', 75, ''afternoon''),
      (''viewpoint'', ''outdoor'', 45, ''sunset''),
      (''walk'', ''outdoor'', 75, ''afternoon''),
      (''activity'', ''mixed'', 90, ''afternoon''),
      (''shopping'', ''indoor'', 60, ''afternoon''),
      (''sport'', ''mixed'', 90, ''afternoon''),
      (''wellness'', ''indoor'', 90, ''afternoon''),
      (''accommodation'', ''indoor'', 120, ''night''),
      (''event'', ''mixed'', 120, ''night''),
      (''sightseeing'', ''outdoor'', 60, ''afternoon'')]"

fun text_value :: "text_field \<Rightarrow> string option" where
  "text_value (TDict en de dflt) = por (por en de) dflt"
| "text_value (TStr s) = Some s"
| "text_value TOther = None"

function strip_tags :: "string \<Rightarrow> string" where
  \<comment> \<open>\<open>re.sub(r"<[^>]+>", "", s)\<close>: a match is \<open><\<close>, one or more characters other than
      \<open>>\<close>, and \<open>>\<close>\<close>
  "strip_tags [] = []"
| "strip_tags (c # cs) =
     (if c = CHR ''<'' \<and> takeWhile (\<lambda>d. d \<noteq> CHR ''>'') cs \<noteq> []
           \<and> dropWhile (\<lambda>d. d \<noteq> CHR ''>'') cs \<noteq> []
      then strip_tags (tl (dropWhile (\<lambda>d. d \<noteq> CHR ''>'') cs))
      else c # strip_tags cs)"
  by pat_completeness auto
termination
proof (relation "measure length")
  show "wf (measure length)" by simp
next
  fix c :: char and cs :: string
  have "length (tl (dropWhile (\<lambda>d. d \<noteq> CHR ''>'') cs)) \<le> length cs"
    using length_dropWhile_le [of "\<lambda>d. d \<noteq> CHR ''>''" cs] by simp
  then show "(tl (dropWhile (\<lambda>d. d \<noteq> CHR ''>'') cs), c # cs) \<in> measure length"
    by simp
next
  fix c :: char and cs :: string
  show "(cs, c # cs) \<in> measure length" by simp
qed

definition strip_html :: "(string \<Rightarrow> string) \<Rightarrow> string option \<Rightarrow> string option" where
  \<comment> \<open>\<open>unescape\<close> stands for the library function \<open>html.unescape\<close>\<close>
  "strip_html unescape v =
     (if \<not> truthy v then None else Some (strip (unescape (strip_tags (the v)))))"

definition has_any :: "string list \<Rightarrow> string list \<Rightarrow> bool" where
  \<comment> \<open>the local function of \<open>category_from_type\<close>, with \<open>lower_categories\<close> as an argument\<close>
  "has_any lower_categories vals =
     list_ex (\<lambda>cat. list_ex (\<lambda>v. contains v cat) vals) lower_categories"

definition category_from_type :: "string list \<Rightarrow> string list \<Rightarrow> string" where
  "category_from_type types categories =
     (let lower_categories = map lower categories in
      if has_any lower_categories [''hotel'', ''accommodation'', ''hostel'', ''lodging'']
        then ''accommodation''
      else if has_any lower_categories
           [''event'', ''festival'', ''concert'', ''show'', ''theatre'', ''theater'',
            ''exhibition'', ''performance'']
        then ''event''
      else if has_any lower_categories
           [''restaurant'', ''gastronomy'', ''dinner'', ''lunch'', ''breakfast'', ''meal'', ''cuisine'']
        then ''restaurant''
      else if has_any lower_categories [''cafe'', ''coffee'', ''tea room'', ''coffee house'']
        then ''cafe''
      else if has_any lower_categories
           [''bar'', ''pub'', ''nightlife'', ''club'', ''disco'', ''cocktail'', ''lounge'']
        then ''bar''
      else if has_any lower_categories [''museum'', ''gallery''] then ''museum''
      else if has_any lower_categories [''market''] then ''market''
      else if has_any lower_categories [''park'', ''garden'', ''nature'', ''water'', ''lake'', ''river'']
        then ''park''
      else if has_any lower_categories [''view'', ''panorama'', ''lookout'', ''vantage'']
        then ''viewpoint''
      else if has_any lower_categories [''walk'', ''hiking'', ''trail'', ''route''] then ''walk''
      else if has_any lower_categories [''shopping'', ''shop'', ''boutique'', ''mall'', ''store'']
        then ''shopping''
      else if has_any lower_categories
           [''sport'', ''fitness'', ''gym'', ''swimming'', ''climbing'', ''ice rink'', ''tennis'']
        then ''sport''
      else if has_any lower_categories [''wellness'', ''spa'', ''sauna'', ''massage'', ''bath'']
        then ''wellness''
      else if has_any lower_categories
           [''sight'', ''sightseeing'', ''attraction'', ''landmark'', ''historic'']
        then ''sightseeing''
      else if ''restaurant'' \<in> set types then ''restaurant''
      else if ''cafeorcoffeeshop'' \<in> set types then ''cafe''
      else if ''barorpub'' \<in> set types \<or> ''bar'' \<in> set types then ''bar''
      else if ''museum'' \<in> set types then ''museum''
      else if ''hotel'' \<in> set types \<or> ''lodgingbusiness'' \<in> set types \<or> ''hostel'' \<in> set types
        then ''accommodation''
      else ''activity'')"

definition label_tags :: "string \<Rightarrow> string list" where
  \<comment> \<open>the body of the loop of \<open>tags_from_categories\<close>: what one lower-cased label appends\<close>
  "label_tags v =
     (if contains ''gastro'' v \<or> contains ''restaurant'' v then [''city''] else []) @
     (if contains ''mexic'' v \<or> contains ''tex-mex'' v \<or> contains ''latin'' v then [''mexican''] else []) @
     (if contains ''ital'' v then [''italian''] else []) @
     (if contains ''sushi'' v \<or> contains ''japan'' v then [''sushi''] else []) @
     (if contains ''asian'' v \<or> contains ''thai'' v \<or> contains ''korean'' v \<or> contains ''chinese'' v
        then [''asian''] else []) @
     (if contains ''burger'' v then [''burger''] else []) @
     (if contains ''american'' v then [''burger''] else []) @
     (if contains ''swiss'' v then [''swiss''] else []) @
     (if contains ''vegan'' v \<or> contains ''vegetarian'' v then [''vegan''] else []) @
     (if contains ''coffee'' v \<or> contains ''cafe'' v then [''coffee''] else []) @
     (if contains ''brunch'' v then [''brunch''] else []) @
     (if contains ''bar'' v \<or> contains ''cocktail'' v \<or> contains ''nightlife'' v
        then [''cocktails''] else []) @
     (if contains ''wine'' v then [''wine''] else []) @
     (if contains ''beer'' v \<or> contains ''brew'' v then [''beer''] else []) @
     (if contains ''park'' v \<or> contains ''garden'' v then [''park'', ''green''] else []) @
     (if contains ''view'' v \<or> contains ''panorama'' v then [''view'', ''photo''] else []) @
     (if contains ''historic'' v \<or> contains ''heritage'' v then [''historic''] else []) @
     (if contains ''quiet'' v then [''quiet''] else []) @
     (if contains ''romantic'' v then [''romantic''] else []) @
     (if contains ''lake'' v \<or> contains ''river'' v \<or> contains ''water'' v then [''lake''] else []) @
     (if contains ''old town'' v \<or> contains ''oldtown'' v then [''oldtown''] else [])"

definition tags_from_categories :: "string list \<Rightarrow> string list" where
  "tags_from_categories categories =
     filter (\<lambda>tag. tag \<in> ALLOWED_TAGS) (concat (map (\<lambda>category. label_tags (lower category)) categories))"

fun extract_image_url :: "image \<Rightarrow> string option" where
  "extract_image_url (ImgStr s) = Some s"
| "extract_image_url (ImgDict u) = u"
| "extract_image_url (ImgList []) = None"
| "extract_image_url (ImgList (im # ims)) = extract_image_url im"
| "extract_image_url ImgOther = None"

fun build_address_zurich :: "address_field \<Rightarrow> string option" where
  "build_address_zurich (AddressDict a) =
     Some (join '', '' (map the (filter truthy [streetAddress a, postalCode a, addressLocality a])))"
| "build_address_zurich (AddressText s) = None"
| "build_address_zurich NoAddress = None"

definition empty_address :: address where
  \<comment> \<open>the object \<open>{}\<close>\<close>
  "empty_address = \<lparr> streetAddress = None, postalCode = None, addressLocality = None,
                      a_url = None, a_telephone = None \<rparr>"

fun address_or_empty :: "address_field \<Rightarrow> address_field" where
  \<comment> \<open>\<open>obj.get("address") or {}\<close>\<close>
  "address_or_empty (AddressDict a) = AddressDict a"
| "address_or_empty (AddressText s) = (if s = [] then AddressDict empty_address else AddressText s)"
| "address_or_empty NoAddress = AddressDict empty_address"

fun address_get :: "address_field \<Rightarrow> (address \<Rightarrow> string option) \<Rightarrow> string option \<Rightarrow> string option" where
  \<comment> \<open>\<open>if not v and isinstance(obj.get("address"), dict): v = obj.get("address", {}).get(key)\<close>\<close>
  "address_get (AddressDict a) key v = (if \<not> truthy v then key a else v)"
| "address_get _ key v = v"

fun type_list :: "type_field \<Rightarrow> string list" where
  "type_list (TypeStr s) = [lower s]"
| "type_list (TypeList vs) = map lower vs"
| "type_list TypeOther = []"

definition merge_existing ::
  "place \<Rightarrow> string list \<Rightarrow> string option \<Rightarrow> string option \<Rightarrow> string option \<Rightarrow> string option \<Rightarrow> place" where
  \<comment> \<open>the \<open>else\<close> branch of the loop of \<open>main\<close>. The order in which Python lists the
      elements of the set \<open>{*existing.get("tags", []), *tags}\<close> is not fixed; the model lists
      them without repetition in the order of \<open>remdups\<close>.\<close>
  "merge_existing existing tags photo_url address website phone =
     (let e1 = existing\<lparr> p_tags := remdups (p_tags existing @ tags) \<rparr>;
          e2 = (if \<not> truthy (p_photoUrl e1) \<and> truthy photo_url then e1\<lparr> p_photoUrl := photo_url \<rparr> else e1);
          e3 = (if \<not> truthy (p_address e2) \<and> truthy address then e2\<lparr> p_address := address \<rparr> else e2);
          e4 = (if \<not> truthy (p_website e3) \<and> truthy website then e3\<lparr> p_website := website \<rparr> else e3)
      in if \<not> truthy (p_phone e4) \<and> truthy phone then e4\<lparr> p_phone := phone \<rparr> else e4)"

definition obj_identifier :: "obj \<Rightarrow> string option" where
  \<comment> \<open>the local variable \<open>identifier\<close> of \<open>main\<close>\<close>
  "obj_identifier ob = por (o_identifier ob) (o_id ob)"

definition obj_geo :: "obj \<Rightarrow> geo" where
  \<comment> \<open>the local variable \<open>geo\<close>: \<open>obj.get("geoCoordinates") or obj.get("geo") or {}\<close>\<close>
  "obj_geo ob =
     (case o_geoCoordinates ob of
        Some g \<Rightarrow> g
      | None \<Rightarrow> (case o_geo ob of
                   Some g \<Rightarrow> g
                 | None \<Rightarrow> \<lparr> latitude = None, longitude = None \<rparr>))"

definition obj_name :: "obj \<Rightarrow> string option" where
  \<comment> \<open>the local variable \<open>name\<close>\<close>
  "obj_name ob = por (por (text_value (o_name ob)) (text_value (o_headline ob))) (o_title ob)"

definition main_zurich_step ::
  "(real \<Rightarrow> string) \<Rightarrow> (string \<Rightarrow> string) \<Rightarrow> (string \<times> place) list \<Rightarrow> obj \<Rightarrow> (string \<times> place) list" where
  \<comment> \<open>the body of the loop over \<open>objects\<close> in \<open>main\<close>; \<open>places_by_id\<close> is the dictionary, in
      insertion order\<close>
  "main_zurich_step fmt unescape places_by_id ob =
     (let identifier = obj_identifier ob in
      if \<not> truthy identifier then places_by_id
      else
       (case (latitude (obj_geo ob), longitude (obj_geo ob)) of
          (Some la, Some lo) \<Rightarrow>
           (let name = obj_name ob in
            if \<not> truthy name then places_by_id
            else
             (let category_names = o_category ob;
                  place_category = category_from_type (type_list (o_type ob)) category_names;
                  description = strip_html unescape
                    (por (por (por (text_value (o_disambiguatingDescription ob))
                                   (text_value (o_description ob)))
                              (text_value (o_textTeaser ob)))
                         (text_value (o_titleTeaser ob)));
                  address = build_address_zurich (address_or_empty (o_address ob));
                  website = address_get (o_address ob) a_url (o_url ob);
                  phone = address_get (o_address ob) a_telephone (o_telephone ob);
                  photo_url = por (extract_image_url (o_image ob)) (extract_image_url (o_photo ob));
                  tags = tags_from_categories category_names
              in (case map_of places_by_id (the identifier) of
                    None \<Rightarrow>
                     (let (indoor_outdoor, duration_mins, best_time) =
                            (case map_of CATEGORY_DEFAULTS_zurich place_category of
                               Some d \<Rightarrow> d
                             | None \<Rightarrow> the (map_of CATEGORY_DEFAULTS_zurich ''activity''))
                      in places_by_id @
                         [(the identifier,
                           \<lparr> p_id = ''zurich-'' @ the identifier,
                              p_name = the name,
                              p_category = place_category,
                              p_lat = la,
                              p_lon = lo,
                              p_tags = tags,
                              p_address = address,
                              p_website = website,
                              p_phone = phone,
                              p_photoUrl = photo_url,
                              p_mapsUrl = maps_url fmt la lo,
                              p_indoorOutdoor = indoor_outdoor,
                              p_durationMins = duration_mins,
                              p_bestTimeOfDay = best_time,
                              p_description = description,
                              p_area = None,
                              p_aiDescription = None,
                              p_embedding = None \<rparr>)])
                  | Some existing \<Rightarrow>
                      map (\<lambda>(k, p). if k = the identifier
                             then (k, merge_existing p tags photo_url address website phone)
                             else (k, p)) places_by_id)))
        | _ \<Rightarrow> places_by_id))"

definition main_zurich ::
  "(real \<Rightarrow> string) \<Rightarrow> (string \<Rightarrow> string) \<Rightarrow> (string \<times> place) list \<Rightarrow> obj list \<Rightarrow> (string \<times> place) list" where
  \<comment> \<open>the loops of \<open>main\<close> over the objects fetched for every category, one after the other;
      \<open>main\<close> itself starts from the empty dictionary and writes \<open>map snd\<close> of the result\<close>
  "main_zurich fmt unescape places_by_id objects =
     foldl (main_zurich_step fmt unescape) places_by_id objects"

section \<open>enrich_places_wikidata.py\<close>

text \<open>
  The functions \<open>search_wikidata\<close>, \<open>get_entity\<close> and \<open>get_image_url\<close> ask a web service:
  they are arguments of the model, and each of them may raise. A search hit is modelled by the
  string at its key \<open>id\<close>. An entity is modelled by its \<open>claims\<close> object (empty when the key
  is absent), which maps a property to a list of statements; a statement is modelled by the
  value found at \<open>mainsnak.datavalue.value\<close>. \<open>time.sleep\<close> is left out.

  \<open>haversine_km\<close> computes in double precision. A double is modelled by the real number it
  denotes, and the rounded arithmetic is an argument of the model in two parts: \<open>hav_a\<close> is
  the double \<open>a\<close> that the function computes from the four coordinates, and \<open>hav_rc\<close> is the
  double \<open>r * c\<close> that it computes from \<open>a\<close>. Between the two stand the calls
  \<open>math.sqrt(a)\<close> and \<open>math.sqrt(1 - a)\<close>, which raise \<open>ValueError\<close> on a negative
  argument; the difference \<open>1 - a\<close> of doubles is negative exactly when \<open>a\<close> exceeds 1.
\<close>

datatype snak_value = VStr string | VDict "real option" "real option" | VOther
  \<comment> \<open>a string; an object, read at \<open>latitude\<close> and \<open>longitude\<close>; anything else or absent\<close>

type_synonym entity = "(string \<times> snak_value list) list"

record wikidata =
  hav_a :: "real \<Rightarrow> real \<Rightarrow> real \<Rightarrow> real \<Rightarrow> real"
  hav_rc :: "real \<Rightarrow> real"
  search_wikidata :: "string \<Rightarrow> error + string list"
  get_entity :: "string \<Rightarrow> error + entity"
  get_image_url :: "string \<Rightarrow> error + string option"

definition haversine_km :: "wikidata \<Rightarrow> real \<Rightarrow> real \<Rightarrow> real \<Rightarrow> real \<Rightarrow> error + real" where
  "haversine_km w lat1 lon1 lat2 lon2 =
     (let a = hav_a w lat1 lon1 lat2 lon2 in
      if a < 0 then Inl (ValueError ''math domain error'')
      else if 1 - a < 0 then Inl (ValueError ''math domain error'')
      else Inr (hav_rc w a))"

definition get_claim_value :: "entity \<Rightarrow> string \<Rightarrow> string option" where
  "get_claim_value claims pid =
     (case map_of claims pid of
        None \<Rightarrow> None
      | Some [] \<Rightarrow> None
      | Some (v # vs) \<Rightarrow> (case v of VStr s \<Rightarrow> Some s | _ \<Rightarrow> None))"

definition get_coords :: "entity \<Rightarrow> (real option \<times> real option) option" where
  "get_coords claims =
     (case map_of claims ''P625'' of
        None \<Rightarrow> None
      | Some [] \<Rightarrow> None
      | Some (v # vs) \<Rightarrow> (case v of VDict la lo \<Rightarrow> Some (la, lo) | _ \<Rightarrow> None))"

fun best_entity_loop ::
  "wikidata \<Rightarrow> place \<Rightarrow> real \<Rightarrow> entity option \<times> real option \<Rightarrow> string list
     \<Rightarrow> error + entity option \<times> real option" where
  \<comment> \<open>the loop of \<open>best_entity\<close> on the pair of \<open>best\<close> and \<open>best_dist\<close>; \<open>distance\<close> is
      the variable \<open>dist\<close>\<close>
  "best_entity_loop w place max_km (best, best_dist) [] = Inr (best, best_dist)"
| "best_entity_loop w place max_km (best, best_dist) (candidate # candidates) =
     (case get_entity w candidate of
        Inl e \<Rightarrow> Inl e
      | Inr entity \<Rightarrow>
         (case get_coords entity of
            Some (Some la, Some lo) \<Rightarrow>
             (case haversine_km w (p_lat place) (p_lon place) la lo of
                Inl e \<Rightarrow> Inl e
              | Inr distance \<Rightarrow>
                  if distance > max_km then best_entity_loop w place max_km (best, best_dist) candidates
                  else if best_dist = None \<or> distance < the best_dist
                    then best_entity_loop w place max_km (Some entity, Some distance) candidates
                  else best_entity_loop w place max_km (best, best_dist) candidates)
          | _ \<Rightarrow> best_entity_loop w place max_km (best, best_dist) candidates))"

definition best_entity :: "wikidata \<Rightarrow> place \<Rightarrow> string list \<Rightarrow> real \<Rightarrow> error + entity option" where
  "best_entity w place candidates max_km =
     (case best_entity_loop w place max_km (None, None) candidates of
        Inl e \<Rightarrow> Inl e
      | Inr (best, best_dist) \<Rightarrow> Inr best)"

definition fill :: "(place \<Rightarrow> string option) \<Rightarrow> (place \<Rightarrow> place) \<Rightarrow> string option \<Rightarrow> place \<times> bool \<Rightarrow> place \<times> bool" where
  \<comment> \<open>\<open>if not place.get(field): v = ...; if v: place[field] = v; updated = True\<close>, the
      assignment being \<open>set_field\<close>\<close>
  "fill field set_field v s =
     (case s of (place, updated) \<Rightarrow>
        if \<not> truthy (field place) \<and> truthy v then (set_field place, True) else (place, updated))"

definition enrich_place :: "wikidata \<Rightarrow> place \<Rightarrow> real \<Rightarrow> error + place \<times> bool" where
  \<comment> \<open>the place after the call and the Boolean returned. The entity that \<open>best_entity\<close>
      returns has a claim \<open>P625\<close>, so it is a non-empty object and \<open>not entity\<close> holds for
      \<open>None\<close> only.\<close>
  "enrich_place w place max_km =
     (let needs = list_ex (\<lambda>field. \<not> truthy (field place)) [p_photoUrl, p_address, p_website, p_phone] in
      if \<not> needs then Inr (place, False)
      else
       (case search_wikidata w (p_name place) of
          Inl e \<Rightarrow> Inl e
        | Inr candidates \<Rightarrow>
           if candidates = [] then Inr (place, False)
           else
            (case best_entity w place candidates max_km of
               Inl e \<Rightarrow> Inl e
             | Inr None \<Rightarrow> Inr (place, False)
             | Inr (Some claims) \<Rightarrow>
                (let s1 = fill p_website (\<lambda>p. p\<lparr> p_website := get_claim_value claims ''P856'' \<rparr>)
                            (get_claim_value claims ''P856'') (place, False);
                     s2 = fill p_phone (\<lambda>p. p\<lparr> p_phone := get_claim_value claims ''P1329'' \<rparr>)
                            (get_claim_value claims ''P1329'') s1;
                     address = por (get_claim_value claims ''P969'') (get_claim_value claims ''P6375'');
                     s3 = fill p_address (\<lambda>p. p\<lparr> p_address := address \<rparr>) address s2;
                     image = get_claim_value claims ''P18''
                 in if \<not> truthy (p_photoUrl (fst s3)) \<and> truthy image
                    then (case get_image_url w (the image) of
                            Inl e \<Rightarrow> Inl e
                          | Inr image_url \<Rightarrow>
                              Inr (fill p_photoUrl (\<lambda>p. p\<lparr> p_photoUrl := image_url \<rparr>) image_url s3))
                    else Inr s3))))"

fun main_enrich ::
  "wikidata \<Rightarrow> real \<Rightarrow> int \<Rightarrow> int \<Rightarrow> int \<Rightarrow> place list \<Rightarrow> error + place list \<times> int \<times> int" where
  \<comment> \<open>the loop of \<open>main\<close> from the counters \<open>updated\<close> and \<open>scanned\<close>: the places after
      the loop and the two counters\<close>
  "main_enrich w max_km limit updated scanned [] = Inr ([], updated, scanned)"
| "main_enrich w max_km limit updated scanned (place # rest) =
     (if scanned \<ge> limit then Inr (place # rest, updated, scanned)
      else
       (case enrich_place w place max_km of
          Inl e \<Rightarrow> Inl e
        | Inr (place', up) \<Rightarrow>
           (case main_enrich w max_km limit (if up then updated + 1 else updated) (scanned + 1) rest of
              Inl e \<Rightarrow> Inl e
            | Inr (rest', updated', scanned') \<Rightarrow> Inr (place' # rest', updated', scanned'))))"

section \<open>The attach passes\<close>

text \<open>
  \<open>embed_places_qwen.py\<close>, \<open>embed_places_openai_batch.py\<close>, \<open>generate_descriptions.py\<close> and
  \<open>generate_descriptions_batch.py\<close> read the dataset, a list of places, and write it back.
  The models that produce a text or a vector are arguments.
\<close>

definition build_description :: "place \<Rightarrow> string" where
  \<comment> \<open>\<open>build_description\<close> of embed_places_qwen.py, the same as \<open>build_text\<close> of
      embed_places_openai_batch.py\<close>
  "build_description place =
     (let desc = por (p_aiDescription place) (p_description place) in
      join '' | '' (filter (\<lambda>part. part \<noteq> [])
        ([p_name place, p_category place, join '', '' (p_tags place)]
         @ (if truthy desc then [the desc] else []))))"

definition main_embed_qwen :: "(string \<Rightarrow> real list) \<Rightarrow> place list \<Rightarrow> place list" where
  \<comment> \<open>the loop of \<open>main\<close> in embed_places_qwen.py; \<open>embed_text\<close> runs the model\<close>
  "main_embed_qwen embed_text places =
     map (\<lambda>place. let ai_description = build_description place;
                       embedding = embed_text ai_description
                   in place\<lparr> p_aiDescription := Some ai_description, p_embedding := Some embedding \<rparr>)
         places"

definition main_generate_descriptions :: "(place \<Rightarrow> string) \<Rightarrow> place list \<Rightarrow> place list" where
  \<comment> \<open>the loop of \<open>main\<close> in generate_descriptions.py; \<open>generate\<close> builds the prompt and runs
      the model\<close>
  "main_generate_descriptions generate places =
     map (\<lambda>place. place\<lparr> p_aiDescription := Some (generate place) \<rparr>) places"

text \<open>
  A line of a batch result file, parsed. \<open>response_body\<close> is
  \<open>record["response"].get("body")\<close> when \<open>response\<close> is an object, and \<open>None\<close> otherwise;
  \<open>record_body\<close> is \<open>record["body"]\<close>, and \<open>None\<close> when the key is absent.
\<close>

record 'b batch_result =
  custom_id :: "string option"
  response_body :: "'b option"
  record_body :: "'b option"

definition result_body :: "'b batch_result \<Rightarrow> 'b option" where
  "result_body r = (case response_body r of Some b \<Rightarrow> Some b | None \<Rightarrow> record_body r)"

fun update_first :: "string \<Rightarrow> (place \<Rightarrow> place) \<Rightarrow> place list \<Rightarrow> place list" where
  "update_first cid f [] = []"
| "update_first cid f (p # ps) = (if p_id p = cid then f p # ps else p # update_first cid f ps)"

definition place_map_update :: "string \<Rightarrow> (place \<Rightarrow> place) \<Rightarrow> place list \<Rightarrow> place list" where
  \<comment> \<open>\<open>place_map = {place["id"]: place for place in places}\<close> maps an id to the last place
      of the list that has it, and that place is the very object of the list: an assignment
      to \<open>place_map[cid][key]\<close>, made when \<open>cid in place_map\<close>, changes that place.\<close>
  "place_map_update cid f places = rev (update_first cid f (rev places))"

record embed_body =
  b_data :: "real list option list option"
    \<comment> \<open>at the key \<open>data\<close>, the list of what each item holds at the key \<open>embedding\<close>\<close>
  b_other_keys :: bool
    \<comment> \<open>whether the object has any other key\<close>

definition embed_body_truthy :: "embed_body \<Rightarrow> bool" where
  \<comment> \<open>an object is false when it is empty\<close>
  "embed_body_truthy b = (b_data b \<noteq> None \<or> b_other_keys b)"

definition extract_embedding_from_response :: "embed_body \<Rightarrow> real list option" where
  "extract_embedding_from_response b =
     (case b_data b of
        Some (d # ds) \<Rightarrow> d
      | _ \<Rightarrow> None)"

definition merge_embedding :: "place list \<Rightarrow> embed_body batch_result \<Rightarrow> place list" where
  \<comment> \<open>the body of the loop of \<open>merge_results\<close> in embed_places_openai_batch.py\<close>
  "merge_embedding places r =
     (case result_body r of
        None \<Rightarrow> places
      | Some b \<Rightarrow>
          if \<not> truthy (custom_id r) \<or> \<not> embed_body_truthy b then places
          else
           (case extract_embedding_from_response b of
              None \<Rightarrow> places
            | Some embedding \<Rightarrow>
                if embedding = [] then places
                else place_map_update (the (custom_id r))
                       (\<lambda>p. p\<lparr> p_embedding := Some embedding \<rparr>) places))"

definition merge_results_embeddings :: "place list \<Rightarrow> embed_body batch_result list \<Rightarrow> place list" where
  \<comment> \<open>\<open>merge_results\<close> of embed_places_openai_batch.py\<close>
  "merge_results_embeddings places results = foldl merge_embedding places results"

record content =
  c_type :: "string option"
  c_text :: "string option"

record item =
  i_type :: "string option"
  i_content :: "content list"  \<comment> \<open>\<open>item.get("content", [])\<close>\<close>

record text_body =
  output_text :: "string option"
  output_items :: "item list"  \<comment> \<open>\<open>body.get("output") or []\<close>\<close>
  choices :: "string option list option"
    \<comment> \<open>at the key \<open>choices\<close>, the list of what each choice holds at \<open>message.content\<close>,
        \<open>None\<close> where that path raises\<close>
  t_other_keys :: bool

definition text_body_truthy :: "text_body \<Rightarrow> bool" where
  "text_body_truthy b =
     (output_text b \<noteq> None \<or> output_items b \<noteq> [] \<or> choices b \<noteq> None \<or> t_other_keys b)"

definition extract_text_from_response :: "text_body \<Rightarrow> string option" where
  "extract_text_from_response b =
     (if truthy (output_text b) then output_text b
      else
       (case filter (\<lambda>c. c_type c \<in> {Some ''output_text'', Some ''text''} \<and> truthy (c_text c))
               (concat (map i_content (filter (\<lambda>i. i_type i = Some ''message'') (output_items b)))) of
          c # cs \<Rightarrow> c_text c
        | [] \<Rightarrow>
           (case choices b of
              None \<Rightarrow> None
            | Some [] \<Rightarrow> None
            | Some (ch # chs) \<Rightarrow> ch)))"

definition merge_description :: "place list \<Rightarrow> text_body batch_result \<Rightarrow> place list" where
  \<comment> \<open>the body of the loop of \<open>merge_results\<close> in generate_descriptions_batch.py\<close>
  "merge_description places r =
     (case result_body r of
        None \<Rightarrow> places
      | Some b \<Rightarrow>
          if \<not> truthy (custom_id r) \<or> \<not> text_body_truthy b then places
          else
           (let txt = extract_text_from_response b in
            if \<not> truthy txt then places
            else place_map_update (the (custom_id r))
                   (\<lambda>p. p\<lparr> p_aiDescription := Some (strip (the txt)) \<rparr>) places))"

definition merge_results_descriptions :: "place list \<Rightarrow> text_body batch_result list \<Rightarrow> place list" where
  \<comment> \<open>\<open>merge_results\<close> of generate_descriptions_batch.py\<close>
  "merge_results_descriptions places results = foldl merge_description places results"

section \<open>Notions used by the properties\<close>

definition slug_char :: "char \<Rightarrow> bool" where
  \<comment> \<open>a lower-case ASCII letter, an ASCII digit or a hyphen\<close>
  "slug_char c = ((97 \<le> code c \<and> code c \<le> 122) \<or> (48 \<le> code c \<and> code c \<le> 57) \<or> c = CHR ''-'')"

definition no_double_hyphen :: "string \<Rightarrow> bool" where
  \<comment> \<open>no two hyphens stand side by side\<close>
  "no_double_hyphen s = successively (\<lambda>a b. \<not> (a = CHR ''-'' \<and> b = CHR ''-'')) s"

definition TAXONOMY :: "string set" where
  \<comment> \<open>the categories a place may hold: the keys of the defaults table of the Zurich script\<close>
  "TAXONOMY = set (map fst CATEGORY_DEFAULTS_zurich)"

text \<open>
  The classifier as the specification words it: two ordered rule sets, the first matching rule
  wins, the type-code rules are read only when no keyword rule matched, and \<open>activity\<close> is the
  fallback. The rules are those of \<open>category_from_type\<close>, in its order.
\<close>

definition spec_keyword_rules :: "(string list \<times> string) list" where
  "spec_keyword_rules =
     [([''hotel'', ''accommodation'', ''hostel'', ''lodging''], ''accommodation''),
      ([''event'', ''festival'', ''concert'', ''show'', ''theatre'', ''theater'', ''exhibition'',
        ''performance''], ''event''),
      ([''restaurant'', ''gastronomy'', ''dinner'', ''lunch'', ''breakfast'', ''meal'', ''cuisine''],
       ''restaurant''),
      ([''cafe'', ''coffee'', ''tea room'', ''coffee house''], ''cafe''),
      ([''bar'', ''pub'', ''nightlife'', ''club'', ''disco'', ''cocktail'', ''lounge''], ''bar''),
      ([''museum'', ''gallery''], ''museum''),
      ([''market''], ''market''),
      ([''park'', ''garden'', ''nature'', ''water'', ''lake'', ''river''], ''park''),
      ([''view'', ''panorama'', ''lookout'', ''vantage''], ''viewpoint''),
      ([''walk'', ''hiking'', ''trail'', ''route''], ''walk''),
      ([''shopping'', ''shop'', ''boutique'', ''mall'', ''store''], ''shopping''),
      ([''sport'', ''fitness'', ''gym'', ''swimming'', ''climbing'', ''ice rink'', ''tennis''], ''sport''),
      ([''wellness'', ''spa'', ''sauna'', ''massage'', ''bath''], ''wellness''),
      ([''sight'', ''sightseeing'', ''attraction'', ''landmark'', ''historic''], ''sightseeing'')]"

definition spec_type_rules :: "(string list \<times> string) list" where
  "spec_type_rules =
     [([''restaurant''], ''restaurant''),
      ([''cafeorcoffeeshop''], ''cafe''),
      ([''barorpub'', ''bar''], ''bar''),
      ([''museum''], ''museum''),
      ([''hotel'', ''lodgingbusiness'', ''hostel''], ''accommodation'')]"

fun first_match :: "('a \<Rightarrow> bool) \<Rightarrow> ('a \<times> string) list \<Rightarrow> string option" where
  \<comment> \<open>the value of the first rule, in the order of the list, whose trigger matches\<close>
  "first_match matches [] = None"
| "first_match matches ((trigger, v) # rules) =
     (if matches trigger then Some v else first_match matches rules)"

definition spec_classify :: "string list \<Rightarrow> string list \<Rightarrow> string" where
  "spec_classify types categories =
     (case first_match (has_any (map lower categories)) spec_keyword_rules of
        Some c \<Rightarrow> c
      | None \<Rightarrow>
         (case first_match (list_ex (\<lambda>type_code. type_code \<in> set types)) spec_type_rules of
            Some c \<Rightarrow> c
          | None \<Rightarrow> ''activity''))"

definition obj_without_address :: obj where
  \<comment> \<open>an object with an identifier, coordinates and a name, and no \<open>address\<close> key\<close>
  "obj_without_address =
     \<lparr> o_identifier = Some ''a1'', o_id = None,
        o_geoCoordinates = Some \<lparr> latitude = Some 47, longitude = Some 8 \<rparr>, o_geo = None,
        o_name = TStr ''Lindenhof'', o_headline = TOther, o_title = None,
        o_category = [''Parks''], o_type = TypeStr ''Place'',
        o_disambiguatingDescription = TOther, o_description = TOther,
        o_textTeaser = TOther, o_titleTeaser = TOther,
        o_address = NoAddress, o_url = None, o_telephone = None,
        o_image = ImgOther, o_photo = ImgOther \<rparr>"

definition tags_allowed :: "place \<Rightarrow> bool" where
  \<comment> \<open>every tag of the place is on the allow-list\<close>
  "tags_allowed p = (set (p_tags p) \<subseteq> ALLOWED_TAGS)"

definition fill_only :: "place \<Rightarrow> place \<Rightarrow> bool" where
  \<comment> \<open>from the place \<open>p\<close> to the place \<open>p'\<close>, each of the four scalar fields that was not
      empty has kept its value\<close>
  "fill_only p p' =
     ((truthy (p_address p) \<longrightarrow> p_address p' = p_address p)
      \<and> (truthy (p_website p) \<longrightarrow> p_website p' = p_website p)
      \<and> (truthy (p_phone p) \<longrightarrow> p_phone p' = p_phone p)
      \<and> (truthy (p_photoUrl p) \<longrightarrow> p_photoUrl p' = p_photoUrl p))"

definition accepted :: "build_state \<Rightarrow> string \<Rightarrow> nat" where
  \<comment> \<open>the number of places of a category accepted so far\<close>
  "accepted st category = length (filter (\<lambda>p. p_category p = category) (st_places st))"

definition cafe_element :: element where
  \<comment> \<open>a node of OpenStreetMap: a caf\<acute>e whose cuisine is coffee\<close>
  "cafe_element =
     \<lparr> e_type = Some ''node'', e_id = Some 42, e_lat = Some 47, e_lon = Some 8, e_center = None,
        e_tags = Some [(''amenity'', ''cafe''), (''name'', cafe_bar), (''cuisine'', ''coffee;karaoke'')] \<rparr>"

definition cafe_place :: place where
  \<comment> \<open>the place \<open>build_place\<close> makes of it, when floats are printed as the empty string\<close>
  "cafe_place =
     \<lparr> p_id = ''osm-node-42-caf-bar'', p_name = cafe_bar, p_category = ''cafe'',
        p_lat = 47, p_lon = 8, p_tags = [''coffee'', ''coffee''],
        p_address = None, p_website = None, p_phone = None, p_photoUrl = None,
        p_mapsUrl = ''https://maps.google.com/?q=,'',
        p_indoorOutdoor = ''indoor'', p_durationMins = 60, p_bestTimeOfDay = ''morning'',
        p_description = None, p_area = None, p_aiDescription = None, p_embedding = None \<rparr>"

definition nameless_element :: element where
  \<comment> \<open>a caf\<acute>e with coordinates and without a name\<close>
  "nameless_element =
     \<lparr> e_type = Some ''node'', e_id = Some 7, e_lat = Some 47, e_lon = Some 8, e_center = None,
        e_tags = Some [(''amenity'', ''cafe'')] \<rparr>"

definition untyped_element :: element where
  \<comment> \<open>a named caf\<acute>e with coordinates and without the key \<open>type\<close>\<close>
  "untyped_element =
     \<lparr> e_type = None, e_id = Some 8, e_lat = Some 47, e_lon = Some 8, e_center = None,
        e_tags = Some [(''amenity'', ''cafe''), (''name'', ''Odeon'')] \<rparr>"

definition obj_without_name :: obj where
  \<comment> \<open>an object with an identifier and coordinates, and without a name\<close>
  "obj_without_name = obj_without_address \<lparr> o_identifier := Some ''b2'', o_name := TOther \<rparr>"

definition counts_ok :: "int \<Rightarrow> build_state \<Rightarrow> bool" where
  \<comment> \<open>\<open>per_category\<close> holds, for every category, the number of places accepted so far, and
      that number is within the limit\<close>
  "counts_ok n st =
     (\<forall>category. st_per_category st category = int (accepted st category)
                \<and> accepted st category \<le> nat n)"

definition obj_old_website :: obj where
  \<comment> \<open>a first record of the identifier \<open>a1\<close>, with a website\<close>
  "obj_old_website = obj_without_address \<lparr> o_url := Some ''http://old'' \<rparr>"

definition obj_new_website :: obj where
  \<comment> \<open>a second record of the same identifier, with another website and a telephone number\<close>
  "obj_new_website =
     obj_without_address \<lparr> o_url := Some ''http://new'', o_telephone := Some ''044 000'' \<rparr>"

definition place_old :: place where
  \<comment> \<open>the place \<open>main\<close> stores for \<open>obj_old_website\<close>, when floats are printed as the
      empty string\<close>
  "place_old =
     \<lparr> p_id = ''zurich-a1'', p_name = ''Lindenhof'', p_category = ''park'',
        p_lat = 47, p_lon = 8, p_tags = [''park'', ''green''],
        p_address = Some [], p_website = Some ''http://old'', p_phone = None, p_photoUrl = None,
        p_mapsUrl = ''https://maps.google.com/?q=,'',
        p_indoorOutdoor = ''outdoor'', p_durationMins = 75, p_bestTimeOfDay = ''afternoon'',
        p_description = None, p_area = None, p_aiDescription = None, p_embedding = None \<rparr>"

definition cpython_a :: "real \<Rightarrow> real \<Rightarrow> real \<Rightarrow> real \<Rightarrow> real" where
  \<comment> \<open>the double \<open>a\<close> that \<open>haversine_km\<close> computes in CPython, at the three quadruples of
      coordinates that the statements below reach (printed 6.168502737997842e-09,
      1.5421256083986096e-07 and 1.0000000000000002); 0 stands at every other argument. A
      coordinate written in decimal stands for the double nearest to it.\<close>
  "cpython_a lat1 lon1 lat2 lon2 =
     (if (lat1, lon1, lat2, lon2) = (47, 8, 47.009, 8)
        then 7457262228329125 / 1208925819614629174706176
      else if (lat1, lon1, lat2, lon2) = (47, 8, 47.045, 8)
        then 5825985828381243 / 37778931862957161709568
      else if (lat1, lon1, lat2, lon2) = (47.3284, 8.5187, - 47.3284, - 171.4813)
        then 4503599627370497 / 4503599627370496
      else 0)"

definition cpython_rc :: "real \<Rightarrow> real" where
  \<comment> \<open>the double \<open>r * c\<close> that \<open>haversine_km\<close> computes in CPython from the first two of these
      values of \<open>a\<close> (printed 1.0007543398010665 and 5.003771699005332, in kilometres); 0
      stands at every other argument\<close>
  "cpython_rc a =
     (if a = 7457262228329125 / 1208925819614629174706176
        then 2253498435908745 / 2251799813685248
      else if a = 5825985828381243 / 37778931862957161709568
        then 2816873044885931 / 562949953421312
      else 0)"

definition wikidata_with :: "real \<Rightarrow> real \<Rightarrow> wikidata" where
  \<comment> \<open>a service that finds one entity, with the given latitude and longitude, a website and
      a telephone number\<close>
  "wikidata_with la lo =
     \<lparr> hav_a = cpython_a,
        hav_rc = cpython_rc,
        search_wikidata = (\<lambda>name. Inr [''Q1'']),
        get_entity = (\<lambda>entity_id. Inr [(''P625'', [VDict (Some la) (Some lo)]),
                                          (''P856'', [VStr ''http://wikidata'']),
                                          (''P1329'', [VStr ''+41 44''])]),
        get_image_url = (\<lambda>file_name. Inr None) \<rparr>"

definition place_lake :: place where
  \<comment> \<open>the place \<open>place_old\<close>, moved to the latitude 47.3284 and the longitude 8.5187\<close>
  "place_lake = place_old \<lparr> p_lat := 47.3284, p_lon := 8.5187 \<rparr>"

definition disqualified :: "wikidata \<Rightarrow> place \<Rightarrow> real \<Rightarrow> string \<Rightarrow> bool" where
  \<comment> \<open>the entity of the candidate is fetched, and either it has no coordinate pair or its
      distance from the place is computed and is greater than \<open>max_km\<close>\<close>
  "disqualified w place max_km candidate =
     (case get_entity w candidate of
        Inl e \<Rightarrow> False
      | Inr entity \<Rightarrow>
         (case get_coords entity of
            Some (Some la, Some lo) \<Rightarrow>
             (case haversine_km w (p_lat place) (p_lon place) la lo of
                Inl e \<Rightarrow> False
              | Inr distance \<Rightarrow> distance > max_km)
          | _ \<Rightarrow> True))"

definition only_embedding_written :: "place \<Rightarrow> place \<Rightarrow> bool" where
  \<comment> \<open>the place \<open>p'\<close> is the place \<open>p\<close> but for the field \<open>embedding\<close>\<close>
  "only_embedding_written p p' = (p' = p \<lparr> p_embedding := p_embedding p' \<rparr>)"

definition only_aiDescription_written :: "place \<Rightarrow> place \<Rightarrow> bool" where
  \<comment> \<open>the place \<open>p'\<close> is the place \<open>p\<close> but for the field \<open>aiDescription\<close>\<close>
  "only_aiDescription_written p p' = (p' = p \<lparr> p_aiDescription := p_aiDescription p' \<rparr>)"

definition embedding_result :: "embed_body batch_result" where
  \<comment> \<open>a line of the embeddings result file for the place \<open>zurich-a1\<close>\<close>
  "embedding_result =
     \<lparr> custom_id = Some ''zurich-a1'',
        response_body = Some \<lparr> b_data = Some [Some [1, 0]], b_other_keys = True \<rparr>,
        record_body = None \<rparr>"

definition description_result :: "text_body batch_result" where
  \<comment> \<open>a line of the descriptions result file for the place \<open>zurich-a1\<close>\<close>
  "description_result =
     \<lparr> custom_id = Some ''zurich-a1'',
        response_body = Some \<lparr> output_text = Some '' A quiet hill. '', output_items = [],
                               choices = None, t_other_keys = True \<rparr>,
        record_body = None \<rparr>"

section \<open>Auxiliary facts about strings\<close>


lemma code_lower_char:
  "code (lower_char c) = (if (65 \<le> code c \<and> code c \<le> 90) \<or> (192 \<le> code c \<and> code c \<le> 222 \<and> code c \<noteq> 215) then code c + 32 else code c)"
  by (simp add: lower_char_def code_def)

lemma alnum_lower: "is_ascii_alnum (lower_char c) \<Longrightarrow> slug_char (lower_char c)"
  by (auto simp: is_ascii_alnum_def slug_char_def code_lower_char split: if_splits)

lemma hyphen_not_alnum: "\<not> is_ascii_alnum (CHR ''-'')"
  by (simp add: is_ascii_alnum_def code_def)

lemma re_sub_chars:
  "\<forall>c \<in> set s. is_ascii_alnum c \<longrightarrow> slug_char c \<Longrightarrow> \<forall>c \<in> set (re_sub_non_alnum s). slug_char c"
proof (induction s rule: re_sub_non_alnum.induct)
  case 1
  then show ?case by simp
next
  case (2 c cs)
  show ?case
  proof (cases "is_ascii_alnum c")
    case True
    with 2 show ?thesis by simp
  next
    case False
    have "\<forall>c\<in>set (dropWhile (\<lambda>d. \<not> is_ascii_alnum d) cs). is_ascii_alnum c \<longrightarrow> slug_char c"
      using 2(3) by (auto dest: set_dropWhileD)
    with 2(2)[OF False] False show ?thesis by (simp add: slug_char_def)
  qed
qed

lemma re_sub_hd: "is_ascii_alnum d \<Longrightarrow> re_sub_non_alnum (d # ds) = d # re_sub_non_alnum ds"
  by simp

lemma re_sub_no_double: "no_double_hyphen (re_sub_non_alnum s)"
proof (induction s rule: re_sub_non_alnum.induct)
  case 1
  then show ?case by (simp add: no_double_hyphen_def)
next
  case (2 c cs)
  show ?case
  proof (cases "is_ascii_alnum c")
    case True
    then have "c \<noteq> CHR ''-''" using hyphen_not_alnum by auto
    with True 2(1) show ?thesis
      by (simp add: no_double_hyphen_def successively_Cons)
  next
    case False
    let ?r = "dropWhile (\<lambda>d. \<not> is_ascii_alnum d) cs"
    show ?thesis
    proof (cases ?r)
      case Nil
      have "re_sub_non_alnum (c # cs) = CHR ''-'' # re_sub_non_alnum ?r" using False by simp
      then have "re_sub_non_alnum (c # cs) = [CHR ''-'']" unfolding Nil by simp
      then show ?thesis by (simp add: no_double_hyphen_def)
    next
      case (Cons d ds)
      then have d: "is_ascii_alnum d" using hd_dropWhile[of "\<lambda>d. \<not> is_ascii_alnum d" cs] by simp
      then have dh: "d \<noteq> CHR ''-''" using hyphen_not_alnum by auto
      have "re_sub_non_alnum (c # cs) = CHR ''-'' # re_sub_non_alnum ?r" using False by simp
      then have eq: "re_sub_non_alnum (c # cs) = CHR ''-'' # d # re_sub_non_alnum ds"
        unfolding Cons using d by simp
      have "no_double_hyphen (re_sub_non_alnum ?r)" using 2(2)[OF False] .
      then have "no_double_hyphen (d # re_sub_non_alnum ds)" unfolding Cons using d by simp
      with dh show ?thesis unfolding eq by (simp add: no_double_hyphen_def)
    qed
  qed
qed

lemma no_double_dropWhile: "no_double_hyphen xs \<Longrightarrow> no_double_hyphen (dropWhile P xs)"
proof -
  assume a: "no_double_hyphen xs"
  have "xs = takeWhile P xs @ dropWhile P xs" by simp
  then have "no_double_hyphen (takeWhile P xs @ dropWhile P xs)" using a by simp
  then show ?thesis unfolding no_double_hyphen_def successively_append_iff by simp
qed

lemma no_double_rev: "no_double_hyphen (rev xs) = no_double_hyphen xs"
proof -
  have "successively (\<lambda>x y. \<not> (y = CHR ''-'' \<and> x = CHR ''-'')) xs
      = successively (\<lambda>a b. \<not> (a = CHR ''-'' \<and> b = CHR ''-'')) xs"
    by (intro successively_cong) auto
  then show ?thesis unfolding no_double_hyphen_def successively_rev .
qed

lemma no_double_strip_with: "no_double_hyphen xs \<Longrightarrow> no_double_hyphen (strip_with P xs)"
  by (simp add: strip_with_def no_double_rev no_double_dropWhile)

lemma set_strip_with: "set (strip_with P s) \<subseteq> set s"
  by (auto simp: strip_with_def dest!: set_dropWhileD)

lemma strip_with_ends:
  "strip_with P s = [] \<or> (\<not> P (hd (strip_with P s)) \<and> \<not> P (last (strip_with P s)))"
proof -
  let ?t = "dropWhile P s"
  let ?u = "dropWhile P (rev ?t)"
  show ?thesis
  proof (cases "?u = []")
    case True
    then show ?thesis by (simp add: strip_with_def)
  next
    case False
    then have t: "?t \<noteq> []" by (metis dropWhile.simps(1) rev.simps(1))
    have 1: "\<not> P (hd ?u)" using False hd_dropWhile by blast
    have 2: "\<not> P (hd ?t)" using t hd_dropWhile by blast
    have "rev ?t = takeWhile P (rev ?t) @ ?u" by simp
    then have "last (rev ?t) = last ?u" using False by (metis last_appendR)
    then have 3: "last ?u = hd ?t" using t by (simp add: last_rev)
    have 4: "strip_with P s = rev ?u" by (simp add: strip_with_def)
    have "hd (rev ?u) = last ?u" "last (rev ?u) = hd ?u" using False by (simp_all add: hd_rev last_rev)
    with 1 2 3 4 show ?thesis by simp
  qed
qed

section \<open>Slugification\<close>

lemma slugify_shape:
  "slugify nm \<noteq> [] \<and> hd (slugify nm) \<noteq> CHR ''-'' \<and> last (slugify nm) \<noteq> CHR ''-''
   \<and> list_all slug_char (slugify nm) \<and> no_double_hyphen (slugify nm)"
proof -
  let ?r = "re_sub_non_alnum (lower (strip nm))"
  let ?s = "strip_hyphen ?r"
  have chars: "\<forall>c \<in> set ?r. slug_char c"
    by (rule re_sub_chars) (auto simp: lower_def alnum_lower)
  show ?thesis
  proof (cases "?s = []")
    case True
    then have "slugify nm = ''place''" by (simp add: slugify_def)
    then show ?thesis by (simp add: slug_char_def code_def no_double_hyphen_def)
  next
    case False
    then have eq: "slugify nm = ?s" by (simp add: slugify_def Let_def)
    have ends: "hd ?s \<noteq> CHR ''-'' \<and> last ?s \<noteq> CHR ''-''"
      using strip_with_ends[of "\<lambda>c. c = CHR ''-''" ?r] False by (simp add: strip_hyphen_def)
    have "set ?s \<subseteq> set ?r" by (simp add: strip_hyphen_def set_strip_with)
    with chars have all: "list_all slug_char ?s" by (auto simp: list_all_iff)
    have nd: "no_double_hyphen ?s"
      by (simp add: strip_hyphen_def no_double_strip_with re_sub_no_double)
    show ?thesis using False eq ends all nd by simp
  qed
qed

text \<open>
  C7, as stated, fails: the name \<open>Caf\<acute>e & Bar!!\<close> does not slugify to \<open>cafe-bar\<close>. The
  character U+00E9 is outside \<open>[a-zA-Z0-9]\<close> and nothing in the script transliterates it, so
  it belongs to the run of separators after \<open>caf\<close>.
\<close>

theorem slugify_cafe_bar_counterexample: "slugify cafe_bar \<noteq> ''cafe-bar''"
  by code_simp

text \<open>
  C7, amended: the name \<open>Caf\<acute>e & Bar!!\<close> slugifies to exactly \<open>caf-bar\<close>. For every name
  the slug is not empty, it neither starts nor ends with a hyphen, it consists of lower-case
  ASCII letters, ASCII digits and hyphens only, and it has no two hyphens side by side: each
  maximal run of characters outside \<open>[a-zA-Z0-9]\<close> has become one hyphen.
\<close>

theorem slugify_cafe_bar:
  "slugify cafe_bar = ''caf-bar''
   \<and> slugify nm \<noteq> [] \<and> hd (slugify nm) \<noteq> CHR ''-'' \<and> last (slugify nm) \<noteq> CHR ''-''
   \<and> list_all slug_char (slugify nm) \<and> no_double_hyphen (slugify nm)"
proof -
  have "slugify cafe_bar = ''caf-bar''" by code_simp
  then show ?thesis using slugify_shape [of nm] by simp
qed

theorem slugify_cafe_bar_witness:
  "slugify cafe_bar = ''caf-bar'' \<and> slugify '' -- Zum  Hirschen! '' = ''zum-hirschen''
   \<and> no_double_hyphen (slugify '' -- Zum  Hirschen! '')"
proof -
  have "slugify '' -- Zum  Hirschen! '' = ''zum-hirschen''" by code_simp
  then show ?thesis using slugify_cafe_bar [of "'' -- Zum  Hirschen! ''"] by simp
qed

section \<open>The category classifier\<close>

lemma first_match_index:
  "i < length rules \<Longrightarrow> matches (fst (rules ! i)) \<Longrightarrow> (\<forall>j<i. \<not> matches (fst (rules ! j)))
   \<Longrightarrow> first_match matches rules = Some (snd (rules ! i))"
proof (induction rules arbitrary: i)
  case Nil
  then show ?case by simp
next
  case (Cons r rules)
  obtain trigger v where r: "r = (trigger, v)" by (cases r)
  show ?case
  proof (cases i)
    case 0
    with Cons.prems r show ?thesis by simp
  next
    case (Suc k)
    have "\<not> matches trigger" using Cons.prems(3) Suc r by force
    moreover have "first_match matches rules = Some (snd (rules ! k))"
      using Cons.prems Suc by (intro Cons.IH) auto
    ultimately show ?thesis using r Suc by simp
  qed
qed

lemma first_match_none:
  "(\<forall>r \<in> set rules. \<not> matches (fst r)) \<Longrightarrow> first_match matches rules = None"
  by (induction rules) auto

lemma category_from_type_refines:
  "category_from_type types categories = spec_classify types categories"
  by (simp add: category_from_type_def spec_classify_def spec_keyword_rules_def
      spec_type_rules_def Let_def)

lemma category_from_type_taxonomy: "category_from_type types categories \<in> TAXONOMY"
  by (simp add: category_from_type_def TAXONOMY_def CATEGORY_DEFAULTS_zurich_def Let_def)

text \<open>
  C3: \<open>category_from_type\<close> is a total function whose value is always one category of the
  taxonomy. It is the first-match evaluation of the two ordered rule sets: a keyword rule that
  matches, no earlier keyword rule matching, decides the category; the type-code rules decide
  only when no keyword rule matches, again the first matching one; when no rule of either set
  matches, the category is \<open>activity\<close>.
\<close>

theorem category_from_type_total:
  "category_from_type types categories \<in> TAXONOMY
   \<and> category_from_type types categories = spec_classify types categories
   \<and> (\<forall>i < length spec_keyword_rules.
        has_any (map lower categories) (fst (spec_keyword_rules ! i))
        \<and> (\<forall>j<i. \<not> has_any (map lower categories) (fst (spec_keyword_rules ! j)))
        \<longrightarrow> category_from_type types categories = snd (spec_keyword_rules ! i))
   \<and> ((\<forall>r \<in> set spec_keyword_rules. \<not> has_any (map lower categories) (fst r))
        \<longrightarrow> (\<forall>i < length spec_type_rules.
              list_ex (\<lambda>type_code. type_code \<in> set types) (fst (spec_type_rules ! i))
              \<and> (\<forall>j<i. \<not> list_ex (\<lambda>type_code. type_code \<in> set types) (fst (spec_type_rules ! j)))
              \<longrightarrow> category_from_type types categories = snd (spec_type_rules ! i)))
   \<and> ((\<forall>r \<in> set spec_keyword_rules. \<not> has_any (map lower categories) (fst r))
        \<and> (\<forall>r \<in> set spec_type_rules. \<not> list_ex (\<lambda>type_code. type_code \<in> set types) (fst r))
        \<longrightarrow> category_from_type types categories = ''activity'')"
proof -
  let ?kw = "has_any (map lower categories)"
  let ?ty = "list_ex (\<lambda>type_code. type_code \<in> set types)"
  have a: "category_from_type types categories \<in> TAXONOMY"
    by (rule category_from_type_taxonomy)
  have b: "category_from_type types categories = spec_classify types categories"
    by (rule category_from_type_refines)
  have c: "category_from_type types categories = snd (spec_keyword_rules ! i)"
    if "i < length spec_keyword_rules" "?kw (fst (spec_keyword_rules ! i))"
       "\<forall>j<i. \<not> ?kw (fst (spec_keyword_rules ! j))" for i
    using first_match_index [OF that] by (simp add: b spec_classify_def)
  have d: "category_from_type types categories = snd (spec_type_rules ! i)"
    if "\<forall>r \<in> set spec_keyword_rules. \<not> ?kw (fst r)"
       "i < length spec_type_rules" "?ty (fst (spec_type_rules ! i))"
       "\<forall>j<i. \<not> ?ty (fst (spec_type_rules ! j))" for i
    using first_match_none [OF that(1)] first_match_index [OF that(2,3,4)]
    by (simp add: b spec_classify_def)
  have e: "category_from_type types categories = ''activity''"
    if "\<forall>r \<in> set spec_keyword_rules. \<not> ?kw (fst r)" "\<forall>r \<in> set spec_type_rules. \<not> ?ty (fst r)"
    using first_match_none [OF that(1)] first_match_none [OF that(2)]
    by (simp add: b spec_classify_def)
  show ?thesis using a b c d e by blast
qed

theorem category_from_type_total_witness:
  "category_from_type [''lodgingbusiness''] [''Hotel Bar''] = ''accommodation''
   \<and> category_from_type [''museum'', ''bar''] [''Zoo''] = ''bar''
   \<and> category_from_type [''place''] [''Zoo''] = ''activity''"
proof -
  have k0: "(0::nat) < length spec_keyword_rules
            \<and> has_any (map lower [''Hotel Bar'']) (fst (spec_keyword_rules ! 0))
            \<and> (\<forall>j<(0::nat). \<not> has_any (map lower [''Hotel Bar'']) (fst (spec_keyword_rules ! j)))"
  proof -
    have "has_any (map lower [''Hotel Bar'']) (fst (spec_keyword_rules ! 0))" by code_simp
    then show ?thesis by (simp add: spec_keyword_rules_def)
  qed
  have nk: "\<forall>r \<in> set spec_keyword_rules. \<not> has_any (map lower [''Zoo'']) (fst r)"
    by code_simp
  have t2: "(2::nat) < length spec_type_rules
            \<and> list_ex (\<lambda>type_code. type_code \<in> set [''museum'', ''bar'']) (fst (spec_type_rules ! 2))
            \<and> (\<forall>j<(2::nat). \<not> list_ex (\<lambda>type_code. type_code \<in> set [''museum'', ''bar''])
                                  (fst (spec_type_rules ! j)))"
    by (simp add: spec_type_rules_def less_Suc_eq numeral_2_eq_2)
  have nt: "\<forall>r \<in> set spec_type_rules. \<not> list_ex (\<lambda>type_code. type_code \<in> set [''place'']) (fst r)"
    by (simp add: spec_type_rules_def)
  have v0: "snd (spec_keyword_rules ! 0) = ''accommodation''"
    by (simp add: spec_keyword_rules_def)
  have v2: "snd (spec_type_rules ! 2) = ''bar''"
    by (simp add: spec_type_rules_def)
  from category_from_type_total [of "[''lodgingbusiness'']" "[''Hotel Bar'']"] k0 v0
  have 1: "category_from_type [''lodgingbusiness''] [''Hotel Bar''] = ''accommodation''"
    by metis
  from category_from_type_total [of "[''museum'', ''bar'']" "[''Zoo'']"] nk t2 v2
  have 2: "category_from_type [''museum'', ''bar''] [''Zoo''] = ''bar''"
    by metis
  from category_from_type_total [of "[''place'']" "[''Zoo'']"] nk nt
  have 3: "category_from_type [''place''] [''Zoo''] = ''activity''"
    by metis
  from 1 2 3 show ?thesis by simp
qed

section \<open>Addresses\<close>

text \<open>
  C8 fails on the Zurich script. For an object without an \<open>address\<close> key, \<open>main\<close> calls
  \<open>build_address\<close> on the empty object, which joins the empty list of parts: the place is
  stored with the empty string as its address. The function of the same name in the
  OpenStreetMap script returns \<open>None\<close> when no part is present.
\<close>

theorem build_address_zurich_empty_string:
  "map (\<lambda>(k, p). p_address p) (main_zurich fmt unescape [] [obj_without_address]) = [Some []]
   \<and> build_address_osm [] = None"
  by (simp add: main_zurich_def main_zurich_step_def obj_without_address_def obj_identifier_def
      obj_geo_def obj_name_def por_def truthy_def empty_address_def build_address_osm_def Let_def
      split: prod.splits)

section \<open>Tags\<close>

lemma CUISINE_MAP_allowed: "map_of CUISINE_MAP v = Some t \<Longrightarrow> t \<in> ALLOWED_TAGS"
proof -
  assume "map_of CUISINE_MAP v = Some t"
  then have "(v, t) \<in> set CUISINE_MAP" by (rule map_of_SomeD)
  then have "t \<in> snd ` set CUISINE_MAP" by force
  then show ?thesis by (auto simp: CUISINE_MAP_def ALLOWED_TAGS_def)
qed

lemma extract_cuisine_tags_allowed: "set (extract_cuisine_tags tags) \<subseteq> ALLOWED_TAGS"
  by (auto simp: extract_cuisine_tags_def Let_def dest: CUISINE_MAP_allowed [OF sym]
      split: option.splits if_splits)

lemma category_tags_allowed: "set (category_tags category) \<subseteq> ALLOWED_TAGS"
proof -
  have "ts \<in> snd ` set CATEGORY_TAGS \<Longrightarrow> set ts \<subseteq> ALLOWED_TAGS" for ts
    by (auto simp: CATEGORY_TAGS_def ALLOWED_TAGS_def)
  moreover have "map_of CATEGORY_TAGS category = Some ts \<Longrightarrow> ts \<in> snd ` set CATEGORY_TAGS" for ts
    by (force dest: map_of_SomeD)
  ultimately have "map_of CATEGORY_TAGS category = Some ts \<Longrightarrow> set ts \<subseteq> ALLOWED_TAGS" for ts
    by blast
  then show ?thesis
    by (cases "map_of CATEGORY_TAGS category") (simp_all add: category_tags_def)
qed

lemma set_clamp_tags: "set (clamp_tags ts) = set ts \<inter> ALLOWED_TAGS"
  by (auto simp: clamp_tags_def)

lemma tags_from_categories_allowed: "set (tags_from_categories categories) \<subseteq> ALLOWED_TAGS"
  by (auto simp: tags_from_categories_def)

lemma build_place_fields:
  "build_place fmt el category = Inr (Some p) \<Longrightarrow>
     p_category p = category
     \<and> p_tags p = clamp_tags (category_tags category @ extract_cuisine_tags (element_tags el))
     \<and> p_address p = build_address_osm (element_tags el)"
  by (auto simp: build_place_def Let_def split: option.splits if_splits prod.splits)

lemma build_place_tags_allowed: "build_place fmt el category = Inr (Some p) \<Longrightarrow> tags_allowed p"
  by (drule build_place_fields) (simp add: tags_allowed_def set_clamp_tags)

lemma build_places_step_tags:
  "build_places_step fmt n st el = Inr st' \<Longrightarrow> \<forall>q \<in> set (st_places st). tags_allowed q
   \<Longrightarrow> \<forall>q \<in> set (st_places st'). tags_allowed q"
  by (auto simp: build_places_step_def split: option.splits if_splits sum.splits
      dest: build_place_tags_allowed)

lemma build_places_loop_tags:
  "build_places_loop fmt n st els = Inr st' \<Longrightarrow> \<forall>q \<in> set (st_places st). tags_allowed q
   \<Longrightarrow> \<forall>q \<in> set (st_places st'). tags_allowed q"
proof (induction els arbitrary: st)
  case Nil
  then show ?case by simp
next
  case (Cons el els)
  from Cons.prems(1) obtain st1 where s: "build_places_step fmt n st el = Inr st1"
    and l: "build_places_loop fmt n st1 els = Inr st'"
    by (auto split: sum.splits)
  from build_places_step_tags [OF s Cons.prems(2)] have "\<forall>q \<in> set (st_places st1). tags_allowed q" .
  with Cons.IH [OF l] show ?case .
qed

lemma merge_existing_tags:
  "p_tags (merge_existing existing tags photo_url address website phone)
     = remdups (p_tags existing @ tags)"
  by (simp add: merge_existing_def Let_def)

lemma main_zurich_step_tags:
  "\<forall>(k, q) \<in> set places_by_id. tags_allowed q
   \<Longrightarrow> \<forall>(k, q) \<in> set (main_zurich_step fmt unescape places_by_id ob). tags_allowed q"
  using tags_from_categories_allowed [of "o_category ob"]
  by (auto simp: main_zurich_step_def Let_def tags_allowed_def merge_existing_tags
      split: option.splits if_splits prod.splits)

lemma main_zurich_tags:
  "\<forall>(k, q) \<in> set places_by_id. tags_allowed q
   \<Longrightarrow> \<forall>(k, q) \<in> set (main_zurich fmt unescape places_by_id objects). tags_allowed q"
  unfolding main_zurich_def
proof (induction objects arbitrary: places_by_id)
  case Nil
  then show ?case by simp
next
  case (Cons ob objects)
  from main_zurich_step_tags [OF Cons.prems]
  have "\<forall>(k, q) \<in> set (main_zurich_step fmt unescape places_by_id ob). tags_allowed q" .
  from Cons.IH [OF this] show ?case by simp
qed
lemma build_place_cafe_element: "build_place (\<lambda>x. []) cafe_element ''cafe'' = Inr (Some cafe_place)"
  by code_simp

text \<open>
  C2: every tag that tag extraction returns is on the allow-list: the tags mapped from the
  cuisine tokens, the default tags of a category, the tags scanned from the category labels,
  and the result of \<open>clamp_tags\<close>, which keeps exactly the tags of the allow-list and drops
  the others. Hence every tag of a place made by \<open>build_place\<close>, of a place returned by
  \<open>build_places\<close>, and of a place in the dictionary of the Zurich script after any run of
  merges from a dictionary within the allow-list (the empty one in \<open>main\<close>) is on the
  allow-list. None of these functions has an error branch for a tag.
\<close>

theorem tags_within_allow_list:
  "set (extract_cuisine_tags tags) \<subseteq> ALLOWED_TAGS
   \<and> set (category_tags category) \<subseteq> ALLOWED_TAGS
   \<and> set (tags_from_categories categories) \<subseteq> ALLOWED_TAGS
   \<and> set (clamp_tags ts) = set ts \<inter> ALLOWED_TAGS
   \<and> (build_place fmt el category = Inr (Some p) \<longrightarrow> tags_allowed p)
   \<and> (build_places fmt elements n = Inr ps \<longrightarrow> (\<forall>q \<in> set ps. tags_allowed q))
   \<and> ((\<forall>(k, q) \<in> set places_by_id. tags_allowed q)
        \<longrightarrow> (\<forall>(k, q) \<in> set (main_zurich fmt unescape places_by_id objects). tags_allowed q))"
proof -
  have "\<forall>q \<in> set ps. tags_allowed q" if "build_places fmt elements n = Inr ps"
  proof -
    from that obtain st where
      l: "build_places_loop fmt n initial_state elements = Inr st"
      and ps: "ps = st_places st"
      by (auto simp: build_places_def split: sum.splits)
    from build_places_loop_tags [OF l] ps show ?thesis by (simp add: initial_state_def)
  qed
  then have b: "build_places fmt elements n = Inr ps \<longrightarrow> (\<forall>q \<in> set ps. tags_allowed q)"
    by (rule impI)
  have z: "(\<forall>(k, q) \<in> set places_by_id. tags_allowed q)
        \<longrightarrow> (\<forall>(k, q) \<in> set (main_zurich fmt unescape places_by_id objects). tags_allowed q)"
    by (rule impI) (rule main_zurich_tags)
  have p: "build_place fmt el category = Inr (Some p) \<longrightarrow> tags_allowed p"
    by (rule impI) (rule build_place_tags_allowed)
  from b z p show ?thesis
    by (simp only: extract_cuisine_tags_allowed category_tags_allowed
        tags_from_categories_allowed set_clamp_tags simp_thms)
qed

theorem tags_within_allow_list_witness:
  "build_place (\<lambda>x. []) cafe_element ''cafe'' = Inr (Some cafe_place) \<and> tags_allowed cafe_place
   \<and> set (clamp_tags [''coffee'', ''karaoke'']) = {''coffee''}
   \<and> list_all (\<lambda>(k, q). tags_allowed q)
         (main_zurich (\<lambda>x. []) (\<lambda>s. s) [] [obj_without_address, obj_without_address])"
proof -
  note t = tags_within_allow_list [where ts = "[''coffee'', ''karaoke'']" and fmt = "\<lambda>x. []"
      and el = cafe_element and category = "''cafe''" and p = cafe_place
      and places_by_id = "[]" and unescape = "\<lambda>s. s"
      and objects = "[obj_without_address, obj_without_address]"]
  have "set [''coffee'', ''karaoke''] \<inter> ALLOWED_TAGS = {''coffee''}"
    by (auto simp: ALLOWED_TAGS_def)
  with t build_place_cafe_element show ?thesis by (simp add: list_all_iff)
qed

text \<open>
  C5, as stated, fails: the extractors return lists and never remove a repetition. For a
  caf\<acute>e whose cuisine is coffee, \<open>build_place\<close> concatenates the default tag \<open>coffee\<close> and the
  cuisine tag \<open>coffee\<close>; the labels \<open>Bar\<close> and \<open>Cocktail bar\<close> each append \<open>cocktails\<close>.
\<close>

theorem tag_extraction_duplicates_counterexample:
  "\<not> distinct (clamp_tags (category_tags ''cafe'' @ extract_cuisine_tags [(''cuisine'', ''coffee'')]))
   \<and> \<not> distinct (tags_from_categories [''Bar'', ''Cocktail bar''])"
  by code_simp

lemma count_list_filter: "count_list (filter P xs) x = (if P x then count_list xs x else 0)"
  by (induction xs) auto

text \<open>
  C5, amended: the tags of a place are free of repetition after the merge of a repeated
  identifier, which takes the union of the old and the new tags through a set. The tag
  extractors themselves do not remove repetitions: a tag of the allow-list occurs in their
  result as many times as the category defaults, the cuisine tokens and the category labels
  contribute it.
\<close>

theorem merged_tags_distinct:
  "distinct (p_tags (merge_existing existing tags photo_url address website phone))
   \<and> set (p_tags (merge_existing existing tags photo_url address website phone))
       = set (p_tags existing) \<union> set tags
   \<and> count_list (clamp_tags ts) t = (if t \<in> ALLOWED_TAGS then count_list ts t else 0)
   \<and> (build_place fmt el category = Inr (Some p) \<longrightarrow>
        count_list (p_tags p) t =
          (if t \<in> ALLOWED_TAGS
           then count_list (category_tags category) t
                + count_list (extract_cuisine_tags (element_tags el)) t
           else 0))
   \<and> count_list (tags_from_categories categories) t =
        (if t \<in> ALLOWED_TAGS
         then count_list (concat (map (\<lambda>c. label_tags (lower c)) categories)) t else 0)"
proof -
  have "count_list (p_tags p) t =
          (if t \<in> ALLOWED_TAGS
           then count_list (category_tags category) t
                + count_list (extract_cuisine_tags (element_tags el)) t
           else 0)"
    if "build_place fmt el category = Inr (Some p)"
    using build_place_fields [OF that] by (simp add: clamp_tags_def count_list_filter)
  then show ?thesis
    by (simp add: merge_existing_tags clamp_tags_def tags_from_categories_def count_list_filter)
qed

theorem merged_tags_distinct_witness:
  "build_place (\<lambda>x. []) cafe_element ''cafe'' = Inr (Some cafe_place)
   \<and> count_list (p_tags cafe_place) ''coffee'' = 2
   \<and> distinct (p_tags (merge_existing cafe_place [''coffee'', ''view''] None None None None))
   \<and> set (p_tags (merge_existing cafe_place [''coffee'', ''view''] None None None None))
       = {''coffee'', ''view''}"
proof -
  note t = merged_tags_distinct [where existing = cafe_place and tags = "[''coffee'', ''view'']"
      and t = "''coffee''" and fmt = "\<lambda>x. []" and el = cafe_element and category = "''cafe''"
      and p = cafe_place]
  have "set (p_tags cafe_place) \<union> set [''coffee'', ''view''] = {''coffee'', ''view''}"
    by (auto simp: cafe_place_def)
  moreover have "count_list (p_tags cafe_place) ''coffee'' = 2"
    by (simp add: cafe_place_def)
  ultimately show ?thesis using t build_place_cafe_element by simp
qed

section \<open>Rejected records\<close>

lemma element_center_None:
  "(element_center el = None) =
     ((e_lat el = None \<or> e_lon el = None)
      \<and> (case e_center el of None \<Rightarrow> True | Some c \<Rightarrow> c_lat c = None \<or> c_lon c = None))"
  by (auto simp: element_center_def split: option.splits)

lemma build_place_rejects:
  "element_center el = None \<or> \<not> truthy (map_of (element_tags el) ''name'')
   \<Longrightarrow> build_place fmt el category = Inr None"
  by (auto simp: build_place_def Let_def split: option.splits)

lemma build_places_step_rejects:
  "(\<And>category. build_place fmt el category = Inr None) \<Longrightarrow> build_places_step fmt n st el = Inr st"
  by (simp add: build_places_step_def split: option.splits)

lemma build_places_loop_append:
  "build_places_loop fmt n st (xs @ ys) =
     (case build_places_loop fmt n st xs of
        Inl e \<Rightarrow> Inl e
      | Inr st' \<Rightarrow> build_places_loop fmt n st' ys)"
  by (induction xs arbitrary: st) (auto split: sum.splits)

lemma build_places_skip:
  assumes "\<And>st. build_places_step fmt n st el = Inr st"
  shows "build_places fmt (before @ el # after) n = build_places fmt (before @ after) n"
  using assms by (simp add: build_places_def build_places_loop_append split: sum.splits)

lemma main_zurich_step_rejects:
  "latitude (obj_geo ob) = None \<or> longitude (obj_geo ob) = None \<or> \<not> truthy (obj_name ob)
   \<Longrightarrow> main_zurich_step fmt unescape places_by_id ob = places_by_id"
  by (auto simp: main_zurich_step_def Let_def split: option.splits)

text \<open>
  C4: an element of the OpenStreetMap answer that has no coordinate pair (neither \<open>lat\<close> and
  \<open>lon\<close> nor both of them under \<open>center\<close>) or no non-empty name makes \<open>build_place\<close> return
  \<open>None\<close> without raising; the loop of \<open>build_places\<close> keeps its state and goes on, and the
  list returned is the one returned for the elements without it. An object of the Zurich API
  without latitude or longitude or without a non-empty name leaves the dictionary of \<open>main\<close>
  as it is, and the result of the loop is the result for the objects without it.
\<close>

theorem rejected_records_dropped:
  "(element_center el = None) =
     ((e_lat el = None \<or> e_lon el = None)
      \<and> (case e_center el of None \<Rightarrow> True | Some c \<Rightarrow> c_lat c = None \<or> c_lon c = None))
   \<and> (element_center el = None \<or> \<not> truthy (map_of (element_tags el) ''name'') \<longrightarrow>
        build_place fmt el category = Inr None
        \<and> build_places_step fmt n st el = Inr st
        \<and> build_places fmt (before @ el # after) n = build_places fmt (before @ after) n)
   \<and> (latitude (obj_geo ob) = None \<or> longitude (obj_geo ob) = None \<or> \<not> truthy (obj_name ob) \<longrightarrow>
        main_zurich_step fmt unescape places_by_id ob = places_by_id
        \<and> main_zurich fmt unescape places_by_id (objects @ ob # objects')
            = main_zurich fmt unescape places_by_id (objects @ objects'))"
proof -
  have osm: "build_place fmt el category = Inr None
        \<and> build_places_step fmt n st el = Inr st
        \<and> build_places fmt (before @ el # after) n = build_places fmt (before @ after) n"
    if r: "element_center el = None \<or> \<not> truthy (map_of (element_tags el) ''name'')"
  proof -
    have s: "build_places_step fmt n st el = Inr st" for st
      by (rule build_places_step_rejects) (rule build_place_rejects [OF r])
    from build_place_rejects [OF r] s build_places_skip [of fmt n el before after]
    show ?thesis by simp
  qed
  have zurich: "main_zurich_step fmt unescape places_by_id ob = places_by_id
        \<and> main_zurich fmt unescape places_by_id (objects @ ob # objects')
            = main_zurich fmt unescape places_by_id (objects @ objects')"
    if r: "latitude (obj_geo ob) = None \<or> longitude (obj_geo ob) = None \<or> \<not> truthy (obj_name ob)"
    using main_zurich_step_rejects [OF r] by (simp add: main_zurich_def)
  from osm zurich element_center_None [of el] show ?thesis by blast
qed

lemma build_places_cafe_only: "build_places (\<lambda>x. []) [cafe_element] 5 = Inr [cafe_place]"
  by code_simp

lemma main_zurich_obj_without_name:
  "latitude (obj_geo obj_without_name) = Some 47 \<and> longitude (obj_geo obj_without_name) = Some 8
   \<and> obj_name obj_without_name = None"
  by (simp add: obj_without_name_def obj_without_address_def obj_geo_def obj_name_def por_def truthy_def)

theorem rejected_records_dropped_witness:
  "\<not> truthy (map_of (element_tags nameless_element) ''name'')
   \<and> build_place (\<lambda>x. []) nameless_element ''cafe'' = Inr None
   \<and> build_places (\<lambda>x. []) [nameless_element, cafe_element] 5 = Inr [cafe_place]
   \<and> \<not> truthy (obj_name obj_without_name)
   \<and> main_zurich (\<lambda>x. []) (\<lambda>s. s) [] [obj_without_address, obj_without_name, obj_without_address]
       = main_zurich (\<lambda>x. []) (\<lambda>s. s) [] [obj_without_address, obj_without_address]"
proof -
  have n: "\<not> truthy (map_of (element_tags nameless_element) ''name'')"
    by (simp add: nameless_element_def element_tags_def truthy_def)
  have z: "\<not> truthy (obj_name obj_without_name)"
    using main_zurich_obj_without_name by (simp add: truthy_def)
  note t = rejected_records_dropped [where el = nameless_element and fmt = "\<lambda>x. []"
      and category = "''cafe''" and n = 5 and before = "[]" and after = "[cafe_element]"
      and ob = obj_without_name and unescape = "\<lambda>s. s" and places_by_id = "[]"
      and objects = "[obj_without_address]" and objects' = "[obj_without_address]"]
  from t n z build_places_cafe_only show ?thesis by simp
qed

section \<open>The limit per category\<close>

lemma counts_ok_initial: "counts_ok n initial_state"
  by (simp add: counts_ok_def initial_state_def accepted_def)

lemma build_places_step_counts:
  assumes "build_places_step fmt n st el = Inr st'" and "counts_ok n st"
  shows "counts_ok n st' \<and> (\<forall>category. accepted st category \<le> accepted st' category)"
proof (cases "st' = st")
  case True
  with assms(2) show ?thesis by simp
next
  case False
  with assms(1) obtain category place where
    c: "osm_category (element_tags el) = Some category"
    and lt: "st_per_category st category < n"
    and bp: "build_place fmt el category = Inr (Some place)"
    and st': "st' = \<lparr> st_places = st_places st @ [place],
                      st_seen = insert (p_id place) (st_seen st),
                      st_per_category = (st_per_category st)
                        (category := st_per_category st category + 1) \<rparr>"
    by (auto simp: build_places_step_def split: option.splits if_splits sum.splits)
  have cat: "p_category place = category"
    using build_place_fields [OF bp] by simp
  have acc: "accepted st' c = accepted st c + (if c = category then 1 else 0)" for c
    using cat by (simp add: st' accepted_def)
  have per: "st_per_category st c = int (accepted st c)" and le: "accepted st c \<le> nat n" for c
    using assms(2) by (simp_all add: counts_ok_def)
  have "int (accepted st category) < n" using lt per [of category] by simp
  then have "accepted st category + 1 \<le> nat n" by linarith
  with per le acc have "counts_ok n st'"
    by (simp add: counts_ok_def st')
  moreover have "\<forall>c. accepted st c \<le> accepted st' c" using acc by simp
  ultimately show ?thesis by simp
qed

lemma build_places_loop_counts:
  "build_places_loop fmt n st els = Inr st' \<Longrightarrow> counts_ok n st
   \<Longrightarrow> counts_ok n st' \<and> (\<forall>category. accepted st category \<le> accepted st' category)"
proof (induction els arbitrary: st)
  case Nil
  then show ?case by simp
next
  case (Cons el els)
  from Cons.prems(1) obtain st1 where s: "build_places_step fmt n st el = Inr st1"
    and l: "build_places_loop fmt n st1 els = Inr st'"
    by (auto split: sum.splits)
  from build_places_step_counts [OF s Cons.prems(2)]
  have 1: "counts_ok n st1" and 2: "\<forall>category. accepted st category \<le> accepted st1 category"
    by simp_all
  from Cons.IH [OF l 1] 2 show ?case by (meson le_trans)
qed

lemma build_places_step_at_limit:
  "osm_category (element_tags el) = Some category \<Longrightarrow> n \<le> st_per_category st category
   \<Longrightarrow> build_places_step fmt n st el = Inr st"
  by (simp add: build_places_step_def)

text \<open>
  C10: for every list of elements and every limit \<open>n\<close>, \<open>build_places\<close> returns at most
  \<open>n\<close> places of each category (none when \<open>n\<close> is negative). The counter of a category is
  the number of its places accepted so far and never decreases; once that number has reached
  \<open>n\<close>, the loop leaves its state as it is at every further element of the category, and it
  does so before \<open>build_place\<close> is called: also an element on which \<open>build_place\<close> would
  raise is passed over, and the list returned is the one returned without the element.
\<close>

theorem limit_per_category:
  "(build_places fmt elements n = Inr ps \<longrightarrow>
      length (filter (\<lambda>p. p_category p = category) ps) \<le> nat n)
   \<and> (build_places_loop fmt n initial_state before = Inr st \<longrightarrow>
        st_per_category st category = int (accepted st category)
        \<and> (\<forall>rest st'. build_places_loop fmt n st rest = Inr st' \<longrightarrow>
              accepted st category \<le> accepted st' category))
   \<and> (build_places_loop fmt n initial_state before = Inr st
        \<and> n \<le> int (accepted st category)
        \<and> osm_category (element_tags el) = Some category \<longrightarrow>
        build_places_step fmt n st el = Inr st
        \<and> build_places fmt (before @ el # after) n = build_places fmt (before @ after) n)"
proof -
  have a: "length (filter (\<lambda>p. p_category p = category) ps) \<le> nat n"
    if "build_places fmt elements n = Inr ps"
  proof -
    from that obtain st where l: "build_places_loop fmt n initial_state elements = Inr st"
      and ps: "ps = st_places st"
      by (auto simp: build_places_def split: sum.splits)
    from build_places_loop_counts [OF l counts_ok_initial] have "counts_ok n st" by simp
    then show ?thesis by (simp add: counts_ok_def accepted_def ps)
  qed
  have b: "st_per_category st category = int (accepted st category)
        \<and> (\<forall>rest st'. build_places_loop fmt n st rest = Inr st' \<longrightarrow>
              accepted st category \<le> accepted st' category)"
    if l: "build_places_loop fmt n initial_state before = Inr st"
  proof -
    from build_places_loop_counts [OF l counts_ok_initial] have ok: "counts_ok n st" by simp
    then have "st_per_category st category = int (accepted st category)"
      by (simp add: counts_ok_def)
    moreover have "accepted st category \<le> accepted st' category"
      if "build_places_loop fmt n st rest = Inr st'" for rest st'
      using build_places_loop_counts [OF that ok] by simp
    ultimately show ?thesis by blast
  qed
  have c: "build_places_step fmt n st el = Inr st
        \<and> build_places fmt (before @ el # after) n = build_places fmt (before @ after) n"
    if l: "build_places_loop fmt n initial_state before = Inr st"
      and full: "n \<le> int (accepted st category)"
      and cat: "osm_category (element_tags el) = Some category"
  proof -
    from b [OF l] full have "n \<le> st_per_category st category" by simp
    from build_places_step_at_limit [OF cat this]
    have s: "build_places_step fmt n st el = Inr st" .
    then have "build_places fmt (before @ el # after) n = build_places fmt (before @ after) n"
      using l by (simp add: build_places_def build_places_loop_append)
    with s show ?thesis by simp
  qed
  from a b c show ?thesis by blast
qed

lemma untyped_element_raises:
  "build_place (\<lambda>x. []) untyped_element ''cafe'' = Inl (KeyError ''type'')
   \<and> build_places (\<lambda>x. []) [cafe_element, untyped_element] 2 = Inl (KeyError ''type'')"
  by code_simp

lemma loop_cafe_element:
  "build_places_loop (\<lambda>x. []) 1 initial_state [cafe_element]
     = Inr \<lparr> st_places = [cafe_place], st_seen = {''osm-node-42-caf-bar''},
             st_per_category = (\<lambda>c. 0)(''cafe'' := 1) \<rparr>"
proof -
  have c: "osm_category (element_tags cafe_element) = Some ''cafe''"
    by (simp add: osm_category_def element_tags_def cafe_element_def)
  have i: "p_id cafe_place = ''osm-node-42-caf-bar''" by (simp add: cafe_place_def)
  show ?thesis
    by (simp add: build_places_step_def c build_place_cafe_element initial_state_def i)
qed

theorem limit_per_category_witness:
  "build_place (\<lambda>x. []) untyped_element ''cafe'' = Inl (KeyError ''type'')
   \<and> build_places (\<lambda>x. []) [cafe_element, untyped_element] 2 = Inl (KeyError ''type'')
   \<and> build_places (\<lambda>x. []) [cafe_element, untyped_element] 1 = Inr [cafe_place]
   \<and> length (filter (\<lambda>p. p_category p = ''cafe'') [cafe_place]) \<le> nat 1"
proof -
  let ?st = "\<lparr> st_places = [cafe_place], st_seen = {''osm-node-42-caf-bar''},
               st_per_category = (\<lambda>c. 0)(''cafe'' := 1) \<rparr>"
  note t = limit_per_category [where fmt = "\<lambda>x. []" and n = 1 and before = "[cafe_element]"
      and st = ?st and category = "''cafe''" and el = untyped_element and after = "[]"
      and elements = "[cafe_element]" and ps = "[cafe_place]"]
  have full: "(1::int) \<le> int (accepted ?st ''cafe'')"
    by (simp add: accepted_def cafe_place_def)
  have cat: "osm_category (element_tags untyped_element) = Some ''cafe''"
    by (simp add: osm_category_def element_tags_def untyped_element_def)
  have one: "build_places (\<lambda>x. []) [cafe_element] 1 = Inr [cafe_place]"
    using loop_cafe_element by (simp add: build_places_def)
  from t loop_cafe_element full cat one untyped_element_raises show ?thesis by simp
qed

section \<open>Fill-only merging\<close>

lemma fill_only_refl: "fill_only p p"
  by (simp add: fill_only_def)

lemma fill_only_trans: "fill_only p q \<Longrightarrow> fill_only q r \<Longrightarrow> fill_only p r"
  by (auto simp: fill_only_def)

lemma merge_existing_fill_only:
  "fill_only existing (merge_existing existing tags photo_url address website phone)"
  by (simp add: fill_only_def merge_existing_def Let_def)

lemma map_of_update_entry:
  "map_of (map (\<lambda>(k, p). if k = i then (k, f p) else (k, p)) xs) k
     = (if k = i then map_option f (map_of xs k) else map_of xs k)"
  by (induction xs) auto

lemma main_zurich_step_fill_only:
  assumes "map_of places_by_id k = Some p"
  shows "\<exists>p'. map_of (main_zurich_step fmt unescape places_by_id ob) k = Some p' \<and> fill_only p p'"
proof -
  let ?r = "main_zurich_step fmt unescape places_by_id ob"
  let ?i = "the (obj_identifier ob)"
  show ?thesis
  proof (cases "truthy (obj_identifier ob) \<and> latitude (obj_geo ob) \<noteq> None
                \<and> longitude (obj_geo ob) \<noteq> None \<and> truthy (obj_name ob)")
    case False
    then have "?r = places_by_id"
      by (auto simp: main_zurich_step_def Let_def split: option.splits)
    with assms show ?thesis by (simp add: fill_only_refl)
  next
    case True
    then obtain la lo where g: "latitude (obj_geo ob) = Some la" "longitude (obj_geo ob) = Some lo"
      by auto
    show ?thesis
    proof (cases "map_of places_by_id ?i")
      case None
      then have "\<exists>q. ?r = places_by_id @ [(?i, q)]"
        using True g by (simp add: main_zurich_step_def Let_def split: prod.splits)
      then obtain q where "?r = places_by_id @ [(?i, q)]" by blast
      with assms show ?thesis by (simp add: fill_only_refl map_add_def)
    next
      case (Some existing)
      then have "?r = map (\<lambda>(k, p). if k = ?i
            then (k, merge_existing p (tags_from_categories (o_category ob))
                   (por (extract_image_url (o_image ob)) (extract_image_url (o_photo ob)))
                   (build_address_zurich (address_or_empty (o_address ob)))
                   (address_get (o_address ob) a_url (o_url ob))
                   (address_get (o_address ob) a_telephone (o_telephone ob)))
            else (k, p)) places_by_id"
        using True g by (simp add: main_zurich_step_def Let_def)
      then have "map_of ?r k = (if k = ?i
            then Some (merge_existing p (tags_from_categories (o_category ob))
                   (por (extract_image_url (o_image ob)) (extract_image_url (o_photo ob)))
                   (build_address_zurich (address_or_empty (o_address ob)))
                   (address_get (o_address ob) a_url (o_url ob))
                   (address_get (o_address ob) a_telephone (o_telephone ob)))
            else Some p)"
        using assms by (simp only: map_of_update_entry) simp
      then show ?thesis
        by (cases "k = ?i") (simp_all add: fill_only_refl merge_existing_fill_only)
    qed
  qed
qed

lemma main_zurich_fill_only:
  "map_of places_by_id k = Some p
   \<Longrightarrow> \<exists>p'. map_of (main_zurich fmt unescape places_by_id objects) k = Some p' \<and> fill_only p p'"
  unfolding main_zurich_def
proof (induction objects arbitrary: places_by_id p)
  case Nil
  then show ?case by (simp add: fill_only_refl)
next
  case (Cons ob objects)
  from main_zurich_step_fill_only [OF Cons.prems] obtain q where
    q: "map_of (main_zurich_step fmt unescape places_by_id ob) k = Some q" and pq: "fill_only p q"
    by blast
  from Cons.IH [OF q] obtain r where
    r: "map_of (foldl (main_zurich_step fmt unescape)
          (main_zurich_step fmt unescape places_by_id ob) objects) k = Some r"
    and qr: "fill_only q r"
    by blast
  from r fill_only_trans [OF pq qr] show ?case by simp
qed

lemma fill_fill_only:
  assumes "fill_only p (fst s)"
    and "\<And>q. \<not> truthy (field q) \<Longrightarrow> fill_only q (set_field q)"
  shows "fill_only p (fst (fill field set_field v s))"
proof (cases s)
  case (Pair q u)
  show ?thesis
  proof (cases "\<not> truthy (field q) \<and> truthy v")
    case True
    then have "fill_only q (set_field q)" using assms(2) by simp
    with assms(1) Pair have "fill_only p (set_field q)" by (auto intro: fill_only_trans)
    with True Pair show ?thesis by (simp add: fill_def)
  next
    case False
    with assms(1) Pair show ?thesis by (auto simp: fill_def)
  qed
qed

lemma enrich_place_fill_only:
  assumes "enrich_place w p max_km = Inr (p', updated)"
  shows "fill_only p p'"
proof -
  have web: "\<not> truthy (p_website q) \<Longrightarrow> fill_only q (q\<lparr> p_website := v \<rparr>)" for q v
    by (simp add: fill_only_def)
  have pho: "\<not> truthy (p_phone q) \<Longrightarrow> fill_only q (q\<lparr> p_phone := v \<rparr>)" for q v
    by (simp add: fill_only_def)
  have adr: "\<not> truthy (p_address q) \<Longrightarrow> fill_only q (q\<lparr> p_address := v \<rparr>)" for q v
    by (simp add: fill_only_def)
  have img: "\<not> truthy (p_photoUrl q) \<Longrightarrow> fill_only q (q\<lparr> p_photoUrl := v \<rparr>)" for q v
    by (simp add: fill_only_def)
  have s3: "fill_only p (fst
      (fill p_address (\<lambda>q. q\<lparr> p_address := a \<rparr>) a
        (fill p_phone (\<lambda>q. q\<lparr> p_phone := b \<rparr>) b
          (fill p_website (\<lambda>q. q\<lparr> p_website := c \<rparr>) c (p, False)))))" for a b c
    by (intro fill_fill_only web pho adr) (simp add: fill_only_refl)
  have s4: "fill_only p (fst (fill p_photoUrl (\<lambda>q. q\<lparr> p_photoUrl := d \<rparr>) d
      (fill p_address (\<lambda>q. q\<lparr> p_address := a \<rparr>) a
        (fill p_phone (\<lambda>q. q\<lparr> p_phone := b \<rparr>) b
          (fill p_website (\<lambda>q. q\<lparr> p_website := c \<rparr>) c (p, False))))))" for a b c d
    by (intro fill_fill_only img s3)
  from assms consider "p' = p"
    | a b c where "p' = fst
      (fill p_address (\<lambda>q. q\<lparr> p_address := a \<rparr>) a
        (fill p_phone (\<lambda>q. q\<lparr> p_phone := b \<rparr>) b
          (fill p_website (\<lambda>q. q\<lparr> p_website := c \<rparr>) c (p, False))))"
    | a b c d where "p' = fst (fill p_photoUrl (\<lambda>q. q\<lparr> p_photoUrl := d \<rparr>) d
      (fill p_address (\<lambda>q. q\<lparr> p_address := a \<rparr>) a
        (fill p_phone (\<lambda>q. q\<lparr> p_phone := b \<rparr>) b
          (fill p_website (\<lambda>q. q\<lparr> p_website := c \<rparr>) c (p, False)))))"
    unfolding enrich_place_def Let_def
    by (auto split: if_splits sum.splits option.splits) (metis fst_conv)+
  then show ?thesis
    using s3 s4 by cases (simp_all add: fill_only_refl)
qed

lemma main_enrich_fill_only:
  "main_enrich w max_km limit updated scanned places = Inr (places', updated', scanned')
   \<Longrightarrow> list_all2 fill_only places places'"
proof (induction places arbitrary: updated scanned places')
  case Nil
  then show ?case by simp
next
  case (Cons p places)
  show ?case
  proof (cases "scanned \<ge> limit")
    case True
    with Cons.prems have "places' = p # places" by simp
    then show ?thesis by (simp add: list_all2_refl fill_only_refl)
  next
    case False
    with Cons.prems obtain q up rest where
      e: "enrich_place w p max_km = Inr (q, up)"
      and l: "main_enrich w max_km limit (if up then updated + 1 else updated) (scanned + 1) places
                = Inr (rest, updated', scanned')"
      and p': "places' = q # rest"
      by (auto split: sum.splits prod.splits)
    from enrich_place_fill_only [OF e] Cons.IH [OF l] p' show ?thesis by simp
  qed
qed
text \<open>
  C1: a merge of the Zurich script and an enrichment from Wikidata only fill. The merge of a
  record into an existing place, the whole loop of \<open>main\<close> from any dictionary, a call of
  \<open>enrich_place\<close> and the whole loop of the enrichment script leave each of \<open>address\<close>,
  \<open>website\<close>, \<open>phone\<close> and \<open>photoUrl\<close> that was not empty before with the value it had; so a
  field they change was empty or absent.
\<close>

theorem fill_only_passes:
  "fill_only existing (merge_existing existing tags photo_url address website phone)
   \<and> (map_of places_by_id k = Some p \<longrightarrow>
        (\<exists>p'. map_of (main_zurich fmt unescape places_by_id objects) k = Some p' \<and> fill_only p p'))
   \<and> (enrich_place w q max_km = Inr (q', updated) \<longrightarrow> fill_only q q')
   \<and> (main_enrich w max_km limit 0 0 places = Inr (places', updated', scanned') \<longrightarrow>
        list_all2 fill_only places places')"
proof (intro conjI impI)
  show "fill_only existing (merge_existing existing tags photo_url address website phone)"
    by (rule merge_existing_fill_only)
next
  assume "map_of places_by_id k = Some p"
  then show "\<exists>p'. map_of (main_zurich fmt unescape places_by_id objects) k = Some p' \<and> fill_only p p'"
    by (rule main_zurich_fill_only)
next
  assume "enrich_place w q max_km = Inr (q', updated)"
  then show "fill_only q q'" by (rule enrich_place_fill_only)
next
  assume "main_enrich w max_km limit 0 0 places = Inr (places', updated', scanned')"
  then show "list_all2 fill_only places places'" by (rule main_enrich_fill_only)
qed

lemma main_zurich_place_old:
  "main_zurich (\<lambda>x. []) (\<lambda>s. s) [] [obj_old_website] = [(''a1'', place_old)]"
  by code_simp

lemma enrich_place_old:
  "enrich_place (wikidata_with 47.009 8) place_old 2
     = Inr (place_old \<lparr> p_phone := Some ''+41 44'' \<rparr>, True)"
  by code_simp

theorem fill_only_passes_witness:
  "map_of (main_zurich (\<lambda>x. []) (\<lambda>s. s) [] [obj_old_website]) ''a1'' = Some place_old
   \<and> p_website place_old = Some ''http://old''
   \<and> map_option p_website
        (map_of (main_zurich (\<lambda>x. []) (\<lambda>s. s)
           (main_zurich (\<lambda>x. []) (\<lambda>s. s) [] [obj_old_website]) [obj_new_website]) ''a1'')
       = Some (Some ''http://old'')
   \<and> enrich_place (wikidata_with 47.009 8) place_old 2
       = Inr (place_old \<lparr> p_phone := Some ''+41 44'' \<rparr>, True)
   \<and> fill_only place_old (place_old \<lparr> p_phone := Some ''+41 44'' \<rparr>)"
proof -
  note t = fill_only_passes [where places_by_id = "main_zurich (\<lambda>x. []) (\<lambda>s. s) [] [obj_old_website]"
      and k = "''a1''" and p = place_old and fmt = "\<lambda>x. []" and unescape = "\<lambda>s. s"
      and objects = "[obj_new_website]" and w = "wikidata_with 47.009 8" and q = place_old and max_km = 2
      and q' = "place_old \<lparr> p_phone := Some ''+41 44'' \<rparr>" and updated = True]
  have h: "map_of (main_zurich (\<lambda>x. []) (\<lambda>s. s) [] [obj_old_website]) ''a1'' = Some place_old"
    by (simp add: main_zurich_place_old)
  have w: "p_website place_old = Some ''http://old''" by (simp add: place_old_def)
  from t h obtain p' where
    1: "map_of (main_zurich (\<lambda>x. []) (\<lambda>s. s)
           (main_zurich (\<lambda>x. []) (\<lambda>s. s) [] [obj_old_website]) [obj_new_website]) ''a1'' = Some p'"
    and 2: "fill_only place_old p'"
    by blast
  from 2 w have "p_website p' = Some ''http://old''" by (simp add: fill_only_def truthy_def)
  with 1 t h w enrich_place_old show ?thesis by simp
qed

section \<open>Enrichment beyond the radius\<close>

lemma best_entity_loop_disqualified:
  "list_all (disqualified w place max_km) candidates
   \<Longrightarrow> best_entity_loop w place max_km (best, best_dist) candidates = Inr (best, best_dist)"
proof (induction candidates)
  case Nil
  then show ?case by simp
next
  case (Cons c candidates)
  then have d: "disqualified w place max_km c"
    and rest: "best_entity_loop w place max_km (best, best_dist) candidates = Inr (best, best_dist)"
    by simp_all
  from d obtain entity where e: "get_entity w c = Inr entity"
    by (auto simp: disqualified_def split: sum.splits)
  show ?case
  proof (cases "get_coords entity")
    case None
    with e rest show ?thesis by simp
  next
    case (Some pair)
    obtain la lo where pair: "pair = (la, lo)" by (cases pair)
    show ?thesis
    proof (cases "la = None \<or> lo = None")
      case True
      with e rest Some pair show ?thesis by (auto split: option.splits)
    next
      case False
      then obtain x y where xy: "la = Some x" "lo = Some y" by auto
      with d e Some pair obtain distance where
        "haversine_km w (p_lat place) (p_lon place) x y = Inr distance" "distance > max_km"
        by (auto simp: disqualified_def split: sum.splits)
      with e rest Some pair xy show ?thesis by simp
    qed
  qed
qed

text \<open>
  What the script does by design: when the search returns candidates each of which has its
  distance from the place computed as greater than \<open>max_km\<close> (or has no coordinates),
  \<open>best_entity\<close> returns \<open>None\<close>, and \<open>enrich_place\<close> returns \<open>False\<close> and leaves the place as
  it is.
\<close>

lemma enrich_place_disqualified:
  assumes "search_wikidata w (p_name place) = Inr candidates"
    and "list_all (disqualified w place max_km) candidates"
  shows "best_entity w place candidates max_km = Inr None
         \<and> enrich_place w place max_km = Inr (place, False)"
proof -
  have b: "best_entity w place candidates max_km = Inr None"
    using best_entity_loop_disqualified [OF assms(2), of None None]
    by (simp add: best_entity_def)
  with assms(1) show ?thesis by (simp add: enrich_place_def Let_def)
qed

text \<open>
  Whenever rounding leaves \<open>a\<close> above 1, \<open>haversine_km\<close> raises, and the error of the first
  candidate passes through \<open>best_entity\<close> and \<open>enrich_place\<close>, neither of which handles it.
\<close>

lemma haversine_km_raises:
  "1 < hav_a w lat1 lon1 lat2 lon2
   \<Longrightarrow> haversine_km w lat1 lon1 lat2 lon2 = Inl (ValueError ''math domain error'')"
  by (simp add: haversine_km_def Let_def)

lemma enrich_place_raises:
  assumes "\<not> truthy (p_phone place)"
    and "search_wikidata w (p_name place) = Inr (c # candidates)"
    and "get_entity w c = Inr entity"
    and "get_coords entity = Some (Some la, Some lo)"
    and "1 < hav_a w (p_lat place) (p_lon place) la lo"
  shows "enrich_place w place max_km = Inl (ValueError ''math domain error'')"
proof -
  have "best_entity w place (c # candidates) max_km = Inl (ValueError ''math domain error'')"
    using assms(3,4) haversine_km_raises [OF assms(5)] by (simp add: best_entity_def)
  with assms(1,2) show ?thesis by (simp add: enrich_place_def Let_def)
qed

text \<open>
  C9 fails on the script for a candidate near the antipode of the place. For the place at
  latitude 47.3284 and longitude 8.5187 and one candidate at latitude -47.3284 and longitude
  -171.4813, some 20015 km away, double arithmetic gives \<open>a\<close> = 1.0000000000000002, so
  \<open>math.sqrt(1 - a)\<close> raises \<open>ValueError\<close>: \<open>enrich_place\<close> does not return \<open>False\<close>, it
  raises, and with it the whole run. For one candidate 5 km to the north of a place, with
  \<open>max_km\<close> = 2, it returns \<open>False\<close> and leaves the place as it is.
\<close>

theorem enrich_place_antipode_raises:
  "haversine_km (wikidata_with (- 47.3284) (- 171.4813)) 47.3284 8.5187 (- 47.3284) (- 171.4813)
     = Inl (ValueError ''math domain error'')
   \<and> best_entity (wikidata_with (- 47.3284) (- 171.4813)) place_lake [''Q1''] 2
     = Inl (ValueError ''math domain error'')
   \<and> enrich_place (wikidata_with (- 47.3284) (- 171.4813)) place_lake 2
     = Inl (ValueError ''math domain error'')
   \<and> enrich_place (wikidata_with 47.045 8) place_old 2 = Inr (place_old, False)"
  by code_simp

section \<open>The attach passes and the fields they write\<close>

lemma only_embedding_written_refl: "only_embedding_written p p"
  by (simp add: only_embedding_written_def)

lemma only_embedding_written_trans:
  "only_embedding_written p q \<Longrightarrow> only_embedding_written q r \<Longrightarrow> only_embedding_written p r"
proof -
  assume 1: "only_embedding_written p q" and 2: "only_embedding_written q r"
  from 2 have "r = q \<lparr> p_embedding := p_embedding r \<rparr>" by (simp add: only_embedding_written_def)
  also from 1 have "q = p \<lparr> p_embedding := p_embedding q \<rparr>" by (simp add: only_embedding_written_def)
  finally have "r = p \<lparr> p_embedding := p_embedding r \<rparr>" by simp
  then show ?thesis by (simp add: only_embedding_written_def)
qed

lemma only_aiDescription_written_refl: "only_aiDescription_written p p"
  by (simp add: only_aiDescription_written_def)

lemma only_aiDescription_written_trans:
  "only_aiDescription_written p q \<Longrightarrow> only_aiDescription_written q r
   \<Longrightarrow> only_aiDescription_written p r"
proof -
  assume 1: "only_aiDescription_written p q" and 2: "only_aiDescription_written q r"
  from 2 have "r = q \<lparr> p_aiDescription := p_aiDescription r \<rparr>"
    by (simp add: only_aiDescription_written_def)
  also from 1 have "q = p \<lparr> p_aiDescription := p_aiDescription q \<rparr>"
    by (simp add: only_aiDescription_written_def)
  finally have "r = p \<lparr> p_aiDescription := p_aiDescription r \<rparr>" by simp
  then show ?thesis by (simp add: only_aiDescription_written_def)
qed

lemma update_first_related:
  assumes "\<And>p. R p p" and "\<And>p. R p (f p)"
  shows "list_all2 R ps (update_first cid f ps)"
  using assms by (induction ps) (auto simp: list_all2_refl)

lemma place_map_update_related:
  assumes "\<And>p. R p p" and "\<And>p. R p (f p)"
  shows "list_all2 R ps (place_map_update cid f ps)"
proof -
  have "list_all2 R (rev ps) (update_first cid f (rev ps))"
    using assms by (rule update_first_related)
  then have "list_all2 R (rev (rev ps)) (rev (update_first cid f (rev ps)))"
    by (simp only: list_all2_rev)
  then show ?thesis by (simp add: place_map_update_def)
qed

lemma foldl_related:
  assumes refl: "\<And>p. R p p"
    and trans: "\<And>p q r. R p q \<Longrightarrow> R q r \<Longrightarrow> R p r"
    and step: "\<And>ps x. list_all2 R ps (g ps x)"
  shows "list_all2 R ps (foldl g ps xs)"
proof (induction xs arbitrary: ps)
  case Nil
  show ?case by (simp add: list_all2_refl refl)
next
  case (Cons x xs)
  have 1: "list_all2 R ps (g ps x)" by (rule step)
  have 2: "list_all2 R (g ps x) (foldl g (g ps x) xs)" by (rule Cons.IH)
  from list_all2_trans [of R R R, OF trans 1 2] show ?case by simp
qed

lemma merge_embedding_related: "list_all2 only_embedding_written places (merge_embedding places r)"
proof -
  have u: "list_all2 only_embedding_written places
             (place_map_update cid (\<lambda>p. p \<lparr> p_embedding := Some e \<rparr>) places)" for cid e
    by (rule place_map_update_related) (simp_all add: only_embedding_written_def)
  have s: "list_all2 only_embedding_written places places"
    by (simp add: list_all2_refl only_embedding_written_refl)
  show ?thesis
    using u s by (simp add: merge_embedding_def split: option.splits)
qed

lemma merge_description_related:
  "list_all2 only_aiDescription_written places (merge_description places r)"
proof -
  have u: "list_all2 only_aiDescription_written places
             (place_map_update cid (\<lambda>p. p \<lparr> p_aiDescription := Some d \<rparr>) places)" for cid d
    by (rule place_map_update_related) (simp_all add: only_aiDescription_written_def)
  have s: "list_all2 only_aiDescription_written places places"
    by (simp add: list_all2_refl only_aiDescription_written_refl)
  show ?thesis
    using u s by (simp add: merge_description_def Let_def split: option.splits)
qed

lemma merge_results_embeddings_related:
  "list_all2 only_embedding_written places (merge_results_embeddings places results)"
  unfolding merge_results_embeddings_def
  by (rule foldl_related)
     (auto intro: only_embedding_written_refl only_embedding_written_trans merge_embedding_related)

lemma merge_results_descriptions_related:
  "list_all2 only_aiDescription_written places (merge_results_descriptions places results)"
  unfolding merge_results_descriptions_def
  by (rule foldl_related)
     (auto intro: only_aiDescription_written_refl only_aiDescription_written_trans
        merge_description_related)

lemma main_generate_descriptions_related:
  "list_all2 only_aiDescription_written places (main_generate_descriptions generate places)"
  by (simp add: main_generate_descriptions_def list_all2_map2 list_all2_refl
      only_aiDescription_written_def)

lemma main_embed_qwen_eq:
  "main_embed_qwen embed_text places =
     map (\<lambda>p. p \<lparr> p_aiDescription := Some (build_description p),
                   p_embedding := Some (embed_text (build_description p)) \<rparr>) places"
  by (simp add: main_embed_qwen_def Let_def)

text \<open>
  C6, as stated, fails: the embedding pass of embed_places_qwen.py writes \<open>aiDescription\<close> as
  well. It stores the text it embeds, built from the name, the category, the tags and the
  description, as its module documentation says.
\<close>

theorem embedding_pass_writes_aiDescription_counterexample:
  "map p_aiDescription (main_embed_qwen (\<lambda>txt. [1, 0]) [place_old])
     = [Some ''Lindenhof | park | park, green'']
   \<and> map p_aiDescription [place_old] = [None]"
  by code_simp

text \<open>
  C6, amended: \<open>merge_results\<close> of embed_places_openai_batch.py writes the field \<open>embedding\<close>
  only, and \<open>merge_results\<close> of generate_descriptions_batch.py and the loop of
  generate_descriptions.py write the field \<open>aiDescription\<close> only: every place of the result
  is the place at its position in the dataset but for that field. The loop of
  embed_places_qwen.py writes both \<open>aiDescription\<close>, the text it embeds, and \<open>embedding\<close>, and
  no other field.
\<close>

theorem attach_passes_frame:
  "list_all2 only_embedding_written places (merge_results_embeddings places embedding_results)
   \<and> list_all2 only_aiDescription_written places
        (merge_results_descriptions places description_results)
   \<and> list_all2 only_aiDescription_written places (main_generate_descriptions generate places)
   \<and> main_embed_qwen embed_text places =
        map (\<lambda>p. p \<lparr> p_aiDescription := Some (build_description p),
                      p_embedding := Some (embed_text (build_description p)) \<rparr>) places"
  by (simp only: merge_results_embeddings_related merge_results_descriptions_related
      main_generate_descriptions_related main_embed_qwen_eq simp_thms)

theorem attach_passes_frame_witness:
  "merge_results_embeddings [place_old, cafe_place] [embedding_result]
     = [place_old \<lparr> p_embedding := Some [1, 0] \<rparr>, cafe_place]
   \<and> merge_results_descriptions [place_old, cafe_place] [description_result]
     = [place_old \<lparr> p_aiDescription := Some ''A quiet hill.'' \<rparr>, cafe_place]
   \<and> list_all2 only_embedding_written [place_old, cafe_place]
        (merge_results_embeddings [place_old, cafe_place] [embedding_result])
   \<and> list_all2 only_aiDescription_written [place_old, cafe_place]
        (merge_results_descriptions [place_old, cafe_place] [description_result])"
proof -
  have e: "merge_results_embeddings [place_old, cafe_place] [embedding_result]
     = [place_old \<lparr> p_embedding := Some [1, 0] \<rparr>, cafe_place]"
    by code_simp
  have d: "merge_results_descriptions [place_old, cafe_place] [description_result]
     = [place_old \<lparr> p_aiDescription := Some ''A quiet hill.'' \<rparr>, cafe_place]"
    by code_simp
  note t = attach_passes_frame [where places = "[place_old, cafe_place]"
      and embedding_results = "[embedding_result]" and description_results = "[description_result]"]
  from t have 1: "list_all2 only_embedding_written [place_old, cafe_place]
        (merge_results_embeddings [place_old, cafe_place] [embedding_result])"
    by (rule conjunct1)
  from t have 2: "list_all2 only_aiDescription_written [place_old, cafe_place]
        (merge_results_descriptions [place_old, cafe_place] [description_result])"
    by (rule conjunct1 [OF conjunct2])
  from e d 1 2 show ?thesis by (intro conjI)
qed

end
